theory Spec2Isabelle
  imports Main "HOL-Library.Multiset"
begin

section \<open>The colour plugin: \<^verbatim>\<open>color_plugin.py\<close>\<close>

text \<open>
  The plugin has two classes. \<^verbatim>\<open>ColorDatabase\<close> keeps one SQLite table
  \<^verbatim>\<open>colors(r, g, b, name)\<close> with primary key \<^verbatim>\<open>(r, g, b)\<close>;
  \<^verbatim>\<open>ColorLookup\<close> wraps it, memoises \<^verbatim>\<open>get_color_name\<close> with
  \<^verbatim>\<open>functools.lru_cache(maxsize=2048)\<close> and clears that cache after every write.

  Scope of the model. Python's \<^verbatim>\<open>int\<close> is \<^typ>\<open>int\<close>. SQLite keeps an integer in
  64 bits, signed: the \<^verbatim>\<open>sqlite3\<close> module raises \<^verbatim>\<open>OverflowError\<close> for a parameter
  outside that range, and SQL arithmetic that leaves the range goes on in floating point.
  I/O failures of the database file are not modelled: every SQL statement of the source
  runs. A \<^typ>\<open>char\<close> stands for the code point of the same number, so strings are
  strings of code points below 256.
\<close>

subsection \<open>Exceptions\<close>

text \<open>
  \<^verbatim>\<open>ValueError\<close> of \<^verbatim>\<open>int\<close> and of tuple unpacking, \<^verbatim>\<open>OverflowError\<close> of
  \<^verbatim>\<open>sqlite3\<close> for a parameter that does not fit, \<^verbatim>\<open>sqlite3.OperationalError\<close> for an
  error of the engine while a statement runs.
\<close>

datatype error = ValueError | OverflowError | OperationalError

subsection \<open>The table and its SQL statements\<close>

type_synonym rgb = "int \<times> int \<times> int"

text \<open>A row of \<^verbatim>\<open>colors\<close>: the columns \<^verbatim>\<open>r, g, b, name\<close>.\<close>

type_synonym color_row = "int \<times> int \<times> int \<times> string"

fun row_key :: "color_row \<Rightarrow> rgb" where
  "row_key (r, g, b, name) = (r, g, b)"

fun row_name :: "color_row \<Rightarrow> string" where
  "row_name (r, g, b, name) = name"

text \<open>
  \<^verbatim>\<open>INSERT OR REPLACE INTO colors (r, g, b, name) VALUES (?, ?, ?, ?)\<close>:
  the rows in conflict with the new one on the primary key are deleted, then the new row
  is inserted (it gets a fresh rowid, so it comes last in table order).
\<close>

definition insert_or_replace :: "color_row \<Rightarrow> color_row list \<Rightarrow> color_row list" where
  "insert_or_replace row tbl = filter (\<lambda>x. row_key x \<noteq> row_key row) tbl @ [row]"

text \<open>
  \<^verbatim>\<open>SELECT name FROM colors WHERE r=? AND g=? AND b=? LIMIT 1\<close> followed by
  \<^verbatim>\<open>fetchone()\<close> and \<^verbatim>\<open>result[0] if result else None\<close>.
\<close>

definition select_name :: "rgb \<Rightarrow> color_row list \<Rightarrow> string option" where
  "select_name k tbl =
     (case filter (\<lambda>x. row_key x = k) tbl of
        [] \<Rightarrow> None
      | x # _ \<Rightarrow> Some (row_name x))"

text \<open>The integers SQLite stores, and \<^verbatim>\<open>sqlite3\<close> accepts as parameters.\<close>

definition sqlite_integer :: "int \<Rightarrow> bool" where
  "sqlite_integer x = (- (2 ^ 63) \<le> x \<and> x < 2 ^ 63)"

text \<open>
  The value of an arithmetic expression over integers: the exact result when it fits in
  64 bits, a floating-point number otherwise. Such a number is at least \<open>2 ^ 63\<close> in
  magnitude, and the model keeps nothing else of it: \<open>Huge\<close>.
\<close>

datatype sql_number = Integer int | Huge

definition sql_integer :: "int \<Rightarrow> sql_number" where
  "sql_integer x = (if sqlite_integer x then Integer x else Huge)"

text \<open>\<^verbatim>\<open>ABS\<close>: SQLite raises \<^verbatim>\<open>integer overflow\<close> for the least integer.\<close>

fun sql_abs :: "sql_number \<Rightarrow> error + sql_number" where
  "sql_abs (Integer x) = (if x = - (2 ^ 63) then Inl OperationalError else Inr (Integer \<bar>x\<bar>))"
| "sql_abs Huge = Inr Huge"

text \<open>\<^verbatim>\<open>+\<close>, for the results of \<^verbatim>\<open>ABS\<close>, which are not negative.\<close>

fun sql_add :: "sql_number \<Rightarrow> sql_number \<Rightarrow> sql_number" where
  "sql_add (Integer x) (Integer y) = sql_integer (x + y)"
| "sql_add x y = Huge"

text \<open>
  The query of \<^verbatim>\<open>find_similar_color\<close>:
  \<^verbatim>\<open>SELECT r, g, b, name, ABS(r-?) + ABS(g-?) + ABS(b-?) as diff
     FROM colors WHERE diff <= ? ORDER BY diff\<close>.
  \<open>sql_diff\<close> is the column \<^verbatim>\<open>diff\<close> of one row.
\<close>

type_synonym similar_row = "int \<times> int \<times> int \<times> string \<times> int"

fun sql_diff :: "int \<Rightarrow> int \<Rightarrow> int \<Rightarrow> color_row \<Rightarrow> error + sql_number" where
  "sql_diff r g b (r', g', b', name) =
     (case sql_abs (sql_integer (r' - r)) of
        Inl e \<Rightarrow> Inl e
      | Inr x \<Rightarrow>
          (case sql_abs (sql_integer (g' - g)) of
             Inl e \<Rightarrow> Inl e
           | Inr y \<Rightarrow>
               (case sql_abs (sql_integer (b' - b)) of
                  Inl e \<Rightarrow> Inl e
                | Inr z \<Rightarrow> Inr (sql_add (sql_add x y) z))))"

text \<open>
  The scan with its \<^verbatim>\<open>WHERE\<close>: an error in one row ends the statement; a row whose
  \<^verbatim>\<open>diff\<close> is a floating-point number is greater than the parameter, a 64-bit integer,
  and is left out.
\<close>

fun select_rows :: "int \<Rightarrow> int \<Rightarrow> int \<Rightarrow> int \<Rightarrow> color_row list \<Rightarrow> error + similar_row list" where
  "select_rows r g b threshold [] = Inr []"
| "select_rows r g b threshold ((r', g', b', name) # rest) =
     (case sql_diff r g b (r', g', b', name) of
        Inl e \<Rightarrow> Inl e
      | Inr d \<Rightarrow>
          (case select_rows r g b threshold rest of
             Inl e \<Rightarrow> Inl e
           | Inr rows \<Rightarrow>
               Inr (case d of
                      Integer x \<Rightarrow> if x \<le> threshold then (r', g', b', name, x) # rows else rows
                    | Huge \<Rightarrow> rows)))"

fun diff_of :: "similar_row \<Rightarrow> int" where
  "diff_of (r, g, b, name, d) = d"

text \<open>
  \<^verbatim>\<open>ORDER BY diff\<close>. SQL leaves the order of rows with equal \<^verbatim>\<open>diff\<close> open; the
  model keeps them in table order (\<^const>\<open>sort_key\<close> is a stable insertion sort).
\<close>

definition select_similar ::
    "int \<Rightarrow> int \<Rightarrow> int \<Rightarrow> int \<Rightarrow> color_row list \<Rightarrow> error + similar_row list" where
  "select_similar r g b threshold tbl =
     (case select_rows r g b threshold tbl of
        Inl e \<Rightarrow> Inl e
      | Inr rows \<Rightarrow> Inr (sort_key diff_of rows))"

subsection \<open>Python built-ins used by the source\<close>

text \<open>\<^verbatim>\<open>str.split(sep)\<close> with a one-character separator.\<close>

fun py_split :: "char \<Rightarrow> string \<Rightarrow> string list" where
  "py_split sep [] = [[]]"
| "py_split sep (c # cs) =
     (if c = sep then [] # py_split sep cs
      else (case py_split sep cs of
              [] \<Rightarrow> [[c]]
            | w # ws \<Rightarrow> (c # w) # ws))"

text \<open>
  The characters \<^verbatim>\<open>int()\<close> strips, among the code points below 256: tab to carriage
  return, the space, and the whitespace beyond ASCII, U+0085 and U+00A0. (The separators
  U+001C to U+001F are whitespace for \<^verbatim>\<open>str.isspace\<close>, not for \<^verbatim>\<open>int\<close>.)
\<close>

definition py_isspace :: "char \<Rightarrow> bool" where
  "py_isspace c =
     (let n = (of_char c :: nat)
      in (9 \<le> n \<and> n \<le> 13) \<or> n = 32 \<or> n = 133 \<or> n = 160)"

definition py_strip :: "string \<Rightarrow> string" where
  "py_strip s = rev (dropWhile py_isspace (rev (dropWhile py_isspace s)))"

text \<open>The value of a digit character, 37 for a character that is no digit in any base.\<close>

definition digit_value :: "char \<Rightarrow> nat" where
  "digit_value c =
     (let n = (of_char c :: nat)
      in if 48 \<le> n \<and> n \<le> 57 then n - 48
         else if 97 \<le> n \<and> n \<le> 122 then n - 87
         else if 65 \<le> n \<and> n \<le> 90 then n - 55
         else 37)"

text \<open>
  \<^verbatim>\<open>int(s, base)\<close> for base 10 and base 16 (\<^verbatim>\<open>int(s)\<close> is base 10): surrounding
  whitespace is stripped, one sign is allowed, base 16 allows the prefix \<^verbatim>\<open>0x\<close> (with
  one underscore after it), and the digits may be grouped by single underscores. In base
  10 a string of more than 4300 digits is refused (the interpreter's default limit; base
  16 has none). Anything else raises \<^verbatim>\<open>ValueError\<close>, here \<^const>\<open>None\<close>.
\<close>

definition py_int :: "nat \<Rightarrow> string \<Rightarrow> int option" where
  "py_int base s =
     (let t = py_strip s;
          neg = (take 1 t = ''-'');
          u = (if take 1 t = ''-'' \<or> take 1 t = ''+'' then drop 1 t else t);
          v = (if base = 16 \<and> (take 2 u = ''0x'' \<or> take 2 u = ''0X'')
               then (if take 1 (drop 2 u) = ''_'' then drop 3 u else drop 2 u)
               else u);
          ds = filter (\<lambda>c. c \<noteq> CHR ''_'') v
      in if [] \<in> set (py_split CHR ''_'' v) then None
         else if \<not> list_all (\<lambda>c. digit_value c < base) ds then None
         else if base = 10 \<and> length ds > 4300 then None
         else let m = int (foldl (\<lambda>a c. a * base + digit_value c) 0 ds)
              in Some (if neg then - m else m))"

text \<open>The lowercase hexadecimal digits of a natural number, as \<^verbatim>\<open>format(n, 'x')\<close>.\<close>

definition hex_char :: "nat \<Rightarrow> char" where
  "hex_char d = (if d < 10 then char_of (48 + d) else char_of (87 + d))"

fun hex_of_nat :: "nat \<Rightarrow> string" where
  "hex_of_nat n = (if n < 16 then [hex_char n] else hex_of_nat (n div 16) @ [hex_char (n mod 16)])"

declare hex_of_nat.simps [simp del]

text \<open>
  The format specification \<^verbatim>\<open>02x\<close>: lowercase hexadecimal, padded with zeros
  to width 2; the sign of a negative number counts for the width.
\<close>

definition format_02x :: "int \<Rightarrow> string" where
  "format_02x i =
     (if i < 0 then CHR ''-'' # hex_of_nat (nat (- i))
      else (let ds = hex_of_nat (nat i) in replicate (2 - length ds) CHR ''0'' @ ds))"

subsection \<open>\<^verbatim>\<open>class ColorDatabase\<close>\<close>

text \<open>
  The state of a \<^verbatim>\<open>ColorDatabase\<close> is the content of the table \<^verbatim>\<open>colors\<close> in
  the file at \<^verbatim>\<open>db_path\<close>, in table order. \<open>connects\<close> counts the connections the
  methods below have opened with \<^verbatim>\<open>sqlite3.connect\<close>: it is the number a
  call-counting store would report, and the only way the model shows that a method went to
  the storage.
\<close>

record color_database =
  colors :: "color_row list"
  connects :: nat

text \<open>\<^verbatim>\<open>_initialize_db\<close> on a fresh file: \<^verbatim>\<open>CREATE TABLE IF NOT EXISTS\<close>.\<close>

definition initialize_db :: color_database where
  "initialize_db = \<lparr>colors = [], connects = 0\<rparr>"

text \<open>
  \<^verbatim>\<open>ColorDatabase.add_color\<close>: one \<^verbatim>\<open>INSERT OR REPLACE\<close>, committed. A component
  that does not fit in 64 bits makes \<^verbatim>\<open>execute\<close> raise, on the connection already
  opened; the handler logs the exception and raises it again.
\<close>

definition db_add_color ::
    "int \<Rightarrow> int \<Rightarrow> int \<Rightarrow> string \<Rightarrow> color_database \<Rightarrow> (error + unit) \<times> color_database" where
  "db_add_color r g b name d =
     (if \<not> (sqlite_integer r \<and> sqlite_integer g \<and> sqlite_integer b)
      then (Inl OverflowError, d\<lparr>connects := connects d + 1\<rparr>)
      else (Inr (),
            d\<lparr>colors := insert_or_replace (r, g, b, name) (colors d), connects := connects d + 1\<rparr>))"

text \<open>
  \<^verbatim>\<open>r, g, b = map(int, rgb_str.split(','))\<close>: a component that \<^verbatim>\<open>int\<close>
  rejects, and a number of components other than three, each raise \<^verbatim>\<open>ValueError\<close>.
\<close>

definition parse_rgb_str :: "string \<Rightarrow> error + rgb" where
  "parse_rgb_str rgb_str =
     (case map (py_int 10) (py_split CHR '','' rgb_str) of
        [Some r, Some g, Some b] \<Rightarrow> Inr (r, g, b)
      | _ \<Rightarrow> Inl ValueError)"

text \<open>
  The loop of \<^verbatim>\<open>bulk_import_from_json\<close> over \<^verbatim>\<open>colors.items()\<close>, on the
  rows as the open transaction sees them. The argument is the content of the JSON file, a
  dictionary from strings to names, as the list of its items. After the key is unpacked,
  \<^verbatim>\<open>execute\<close> raises \<^verbatim>\<open>OverflowError\<close> for a component that does not fit in 64 bits.
\<close>

fun import_items :: "(string \<times> string) list \<Rightarrow> color_row list \<Rightarrow> error + color_row list" where
  "import_items [] tbl = Inr tbl"
| "import_items ((rgb_str, name) # rest) tbl =
     (case parse_rgb_str rgb_str of
        Inl e \<Rightarrow> Inl e
      | Inr (r, g, b) \<Rightarrow>
          if \<not> (sqlite_integer r \<and> sqlite_integer g \<and> sqlite_integer b) then Inl OverflowError
          else import_items rest (insert_or_replace (r, g, b, name) tbl))"

text \<open>
  \<^verbatim>\<open>with sqlite3.connect(self.db_path) as conn:\<close> around the loop and the final
  \<^verbatim>\<open>conn.commit()\<close>. The inserts run in one transaction, opened by the first of
  them; the context manager rolls the transaction back when the body raises, and the table
  is then what it was.
\<close>

definition bulk_import_from_json ::
    "(string \<times> string) list \<Rightarrow> color_database \<Rightarrow> (error + unit) \<times> color_database" where
  "bulk_import_from_json items d =
     (case import_items items (colors d) of
        Inl e \<Rightarrow> (Inl e, d\<lparr>connects := connects d + 1\<rparr>)
      | Inr tbl \<Rightarrow> (Inr (), d\<lparr>colors := tbl, connects := connects d + 1\<rparr>))"

text \<open>\<^verbatim>\<open>ColorDatabase.find_color\<close>: the range check comes before the connection.\<close>

definition find_color :: "int \<Rightarrow> int \<Rightarrow> int \<Rightarrow> color_database \<Rightarrow> string option \<times> color_database" where
  "find_color r g b d =
     (if \<not> list_all (\<lambda>x. 0 \<le> x \<and> x \<le> 999) [r, g, b] then (None, d)
      else (select_name (r, g, b) (colors d), d\<lparr>connects := connects d + 1\<rparr>))"

subsection \<open>\<^verbatim>\<open>class ColorLookup\<close>\<close>

text \<open>
  A \<^verbatim>\<open>ColorLookup\<close> owns its database and the cache of the decorator on
  \<^verbatim>\<open>get_color_name\<close>. The cache is the list of its entries, the most recently
  used first; its keys are the argument triples (of the one plugin object modelled).
\<close>

record color_lookup =
  db :: color_database
  cache :: "(rgb \<times> string) list"

definition maxsize :: nat where
  "maxsize = 2048"

definition init_lookup :: color_lookup where
  "init_lookup = \<lparr>db = initialize_db, cache = []\<rparr>"

text \<open>The body of \<^verbatim>\<open>get_color_name\<close>, under the decorator.\<close>

definition get_color_name_body :: "int \<Rightarrow> int \<Rightarrow> int \<Rightarrow> color_database \<Rightarrow> string \<times> color_database" where
  "get_color_name_body r g b d =
     (if \<not> (0 \<le> r \<and> r \<le> 999 \<and> 0 \<le> g \<and> g \<le> 999 \<and> 0 \<le> b \<and> b \<le> 999)
      then (''Invalid RGB value'', d)
      else (case find_color r g b d of
              (None, d') \<Rightarrow> (''Unknown'', d')
            | (Some name, d') \<Rightarrow> (if name \<noteq> [] then name else ''Unknown'', d')))"

text \<open>
  \<^verbatim>\<open>@lru_cache(maxsize=2048)\<close>: a hit returns the cached result and makes the entry
  the most recent one; a miss runs the body, and stores the result as the most recent
  entry, in place of the least recent one when the cache is full.
\<close>

definition get_color_name :: "int \<Rightarrow> int \<Rightarrow> int \<Rightarrow> color_lookup \<Rightarrow> string \<times> color_lookup" where
  "get_color_name r g b s =
     (case map_of (cache s) (r, g, b) of
        Some v \<Rightarrow> (v, s\<lparr>cache := ((r, g, b), v) # filter (\<lambda>e. fst e \<noteq> (r, g, b)) (cache s)\<rparr>)
      | None \<Rightarrow>
          (case get_color_name_body r g b (db s) of
             (v, d') \<Rightarrow>
               (v, \<lparr>db = d',
                    cache = ((r, g, b), v) #
                      (if length (cache s) \<ge> maxsize then butlast (cache s) else cache s)\<rparr>)))"

text \<open>
  \<^verbatim>\<open>ColorLookup.add_color\<close>: the write, then \<^verbatim>\<open>cache_clear()\<close>, which an
  exception of the write skips.
\<close>

definition add_color ::
    "int \<Rightarrow> int \<Rightarrow> int \<Rightarrow> string \<Rightarrow> color_lookup \<Rightarrow> (error + unit) \<times> color_lookup" where
  "add_color r g b name s =
     (case db_add_color r g b name (db s) of
        (Inl e, d') \<Rightarrow> (Inl e, s\<lparr>db := d'\<rparr>)
      | (Inr u, d') \<Rightarrow> (Inr (), \<lparr>db = d', cache = []\<rparr>))"

text \<open>
  \<^verbatim>\<open>ColorLookup.import_from_json\<close>: an exception of the import leaves the method
  before \<^verbatim>\<open>cache_clear()\<close>.
\<close>

definition import_from_json ::
    "(string \<times> string) list \<Rightarrow> color_lookup \<Rightarrow> (error + unit) \<times> color_lookup" where
  "import_from_json items s =
     (case bulk_import_from_json items (db s) of
        (Inl e, d') \<Rightarrow> (Inl e, s\<lparr>db := d'\<rparr>)
      | (Inr u, d') \<Rightarrow> (Inr (), \<lparr>db = d', cache = []\<rparr>))"

text \<open>
  \<^verbatim>\<open>ColorLookup.find_similar_color\<close>: its own connection, no cache. The four
  parameters of the query must fit in 64 bits.
\<close>

definition find_similar_color ::
    "int \<Rightarrow> int \<Rightarrow> int \<Rightarrow> int \<Rightarrow> color_lookup \<Rightarrow> (error + similar_row list) \<times> color_lookup" where
  "find_similar_color r g b threshold s =
     (if \<not> (sqlite_integer r \<and> sqlite_integer g \<and> sqlite_integer b \<and> sqlite_integer threshold)
      then Inl OverflowError
      else select_similar r g b threshold (colors (db s)),
      s\<lparr>db := (db s)\<lparr>connects := connects (db s) + 1\<rparr>\<rparr>)"

text \<open>\<^verbatim>\<open>ColorLookup.hex_to_rgb\<close>; the slices \<^verbatim>\<open>hex_str[i:i+2]\<close> for i = 0, 2, 4.\<close>

definition hex_to_rgb :: "string \<Rightarrow> error + rgb" where
  "hex_to_rgb hex_str =
     (let h = dropWhile (\<lambda>c. c = CHR ''#'') hex_str;
          h' = (if length h = 3 then concat (map (\<lambda>c. [c, c]) h) else h)
      in case (py_int 16 (take 2 h'), py_int 16 (take 2 (drop 2 h')), py_int 16 (take 2 (drop 4 h'))) of
           (Some r, Some g, Some b) \<Rightarrow> Inr (r, g, b)
         | _ \<Rightarrow> Inl ValueError)"

text \<open>\<^verbatim>\<open>ColorLookup.rgb_to_hex\<close>: \<^verbatim>\<open>f"#{r:02x}{g:02x}{b:02x}"\<close>.\<close>

definition rgb_to_hex :: "int \<Rightarrow> int \<Rightarrow> int \<Rightarrow> string" where
  "rgb_to_hex r g b = CHR ''#'' # format_02x r @ format_02x g @ format_02x b"

subsection \<open>Callers and invariants\<close>

text \<open>A caller that resolves the keys of a list one after the other.\<close>

fun get_color_names :: "rgb list \<Rightarrow> color_lookup \<Rightarrow> color_lookup" where
  "get_color_names [] s = s"
| "get_color_names ((r, g, b) # ks) s = get_color_names ks (snd (get_color_name r g b s))"

text \<open>The primary key: no two rows of the table have the same \<^verbatim>\<open>(r, g, b)\<close>.\<close>

definition primary_key :: "color_row list \<Rightarrow> bool" where
  "primary_key tbl = distinct (map row_key tbl)"

text \<open>
  The state of the cache between two calls: its keys are distinct, it holds at most
  \<^const>\<open>maxsize\<close> entries, and every entry is what the body returns on the table as it is.
\<close>

definition cache_entry_ok :: "color_database \<Rightarrow> rgb \<times> string \<Rightarrow> bool" where
  "cache_entry_ok d e = (case e of ((r, g, b), v) \<Rightarrow> v = fst (get_color_name_body r g b d))"

definition cache_ok :: "color_lookup \<Rightarrow> bool" where
  "cache_ok s =
     (distinct (map fst (cache s)) \<and> length (cache s) \<le> maxsize \<and>
      list_all (cache_entry_ok (db s)) (cache s))"

definition in_range :: "rgb \<Rightarrow> bool" where
  "in_range k = (case k of (r, g, b) \<Rightarrow> 0 \<le> r \<and> r \<le> 999 \<and> 0 \<le> g \<and> g \<le> 999 \<and> 0 \<le> b \<and> b \<le> 999)"

definition is_hex_digit :: "char \<Rightarrow> bool" where
  "is_hex_digit c = (digit_value c < 16)"

definition is_lower_hex_digit :: "char \<Rightarrow> bool" where
  "is_lower_hex_digit c =
     (let n = (of_char c :: nat) in (48 \<le> n \<and> n \<le> 57) \<or> (97 \<le> n \<and> n \<le> 102))"

text \<open>
  What one pass of the import loop does to the table, for an item whose key parses: the
  upsert of that record.
\<close>

definition upsert_item :: "color_row list \<Rightarrow> string \<times> string \<Rightarrow> color_row list" where
  "upsert_item tbl item =
     (case parse_rgb_str (fst item) of
        Inr (r, g, b) \<Rightarrow> insert_or_replace (r, g, b, snd item) tbl
      | Inl e \<Rightarrow> tbl)"

text \<open>
  A key of the import file that the loop cannot unpack: split at the commas, it has not
  exactly three components, or one of them is no integer for \<^verbatim>\<open>int\<close>.
\<close>

definition malformed_key :: "string \<Rightarrow> bool" where
  "malformed_key rgb_str =
     (let parts = py_split CHR '','' rgb_str
      in length parts \<noteq> 3 \<or> (\<exists>part \<in> set parts. py_int 10 part = None))"

text \<open>
  A key of the import file that the loop unpacks and \<^verbatim>\<open>execute\<close> accepts: it parses,
  to three components that fit in 64 bits.
\<close>

definition storable_key :: "string \<Rightarrow> bool" where
  "storable_key rgb_str =
     (case parse_rgb_str rgb_str of
        Inl e \<Rightarrow> False
      | Inr (r, g, b) \<Rightarrow> sqlite_integer r \<and> sqlite_integer g \<and> sqlite_integer b)"

text \<open>A row with its Manhattan distance to the centre \<open>(r, g, b)\<close>, as an integer.\<close>

fun with_diff :: "int \<Rightarrow> int \<Rightarrow> int \<Rightarrow> color_row \<Rightarrow> similar_row" where
  "with_diff r g b (r', g', b', name) = (r', g', b', name, \<bar>r' - r\<bar> + \<bar>g' - g\<bar> + \<bar>b' - b\<bar>)"

text \<open>
  No component of the row lies exactly \<open>2 ^ 63\<close> below the centre's: \<^verbatim>\<open>ABS\<close> is defined
  on the three differences.
\<close>

fun abs_defined :: "int \<Rightarrow> int \<Rightarrow> int \<Rightarrow> color_row \<Rightarrow> bool" where
  "abs_defined r g b (r', g', b', name) =
     (r' - r \<noteq> - (2 ^ 63) \<and> g' - g \<noteq> - (2 ^ 63) \<and> b' - b \<noteq> - (2 ^ 63))"

text \<open>The states a plugin object goes through, from a fresh database file.\<close>

inductive reachable :: "color_lookup \<Rightarrow> bool" where
  reachable_init: "reachable init_lookup"
| reachable_add: "reachable s \<Longrightarrow> reachable (snd (add_color r g b name s))"
| reachable_import: "reachable s \<Longrightarrow> reachable (snd (import_from_json items s))"
| reachable_get: "reachable s \<Longrightarrow> reachable (snd (get_color_name r g b s))"
| reachable_similar: "reachable s \<Longrightarrow> reachable (snd (find_similar_color r g b threshold s))"

text \<open>
  The entry of key \<open>k\<close> is in the cache, and every entry more recent than it has its key
  in \<open>B\<close>.
\<close>

definition cached_behind :: "rgb \<Rightarrow> rgb set \<Rightarrow> (rgb \<times> string) list \<Rightarrow> bool" where
  "cached_behind k B c = (\<exists>pre v post. c = pre @ (k, v) # post \<and> fst ` set pre \<subseteq> B)"

section \<open>Properties\<close>

subsection \<open>The table\<close>

lemma length3_shape: "length (h :: 'a list) = 3 \<Longrightarrow> \<exists>a b c. h = [a, b, c]"
  by (auto simp: length_Suc_conv eval_nat_numeral)

lemma sql_integer_nonneg: "0 \<le> v \<Longrightarrow> sql_integer v = (if v < 2 ^ 63 then Integer v else Huge)"
  by (simp add: sql_integer_def sqlite_integer_def)

lemma sql_abs_integer: "x \<noteq> - (2 ^ 63) \<Longrightarrow> sql_abs (sql_integer x) = Inr (sql_integer \<bar>x\<bar>)"
  by (auto simp: sql_integer_def sqlite_integer_def)

lemma sql_add_nonneg:
  "0 \<le> x \<Longrightarrow> 0 \<le> y \<Longrightarrow> sql_add (sql_integer x) (sql_integer y) = sql_integer (x + y)"
  by (auto simp: sql_integer_def sqlite_integer_def)

lemma sql_diff_exact:
  assumes "abs_defined r g b row"
  shows "sql_diff r g b row = Inr (sql_integer (diff_of (with_diff r g b row)))"
proof -
  obtain r' g' b' name where row: "row = (r', g', b', name)" by (cases row)
  from assms have d: "r' - r \<noteq> - (2 ^ 63)" "g' - g \<noteq> - (2 ^ 63)" "b' - b \<noteq> - (2 ^ 63)"
    by (simp_all add: row)
  have "sql_add (sql_add (sql_integer \<bar>r' - r\<bar>) (sql_integer \<bar>g' - g\<bar>)) (sql_integer \<bar>b' - b\<bar>)
      = sql_integer (\<bar>r' - r\<bar> + \<bar>g' - g\<bar> + \<bar>b' - b\<bar>)"
    by (simp add: sql_add_nonneg)
  then show ?thesis
    by (simp add: row sql_abs_integer [OF d(1)] sql_abs_integer [OF d(2)] sql_abs_integer [OF d(3)])
qed

lemma diff_of_with_diff_nonneg: "0 \<le> diff_of (with_diff r g b row)"
  by (cases row) simp

lemma select_rows_exact:
  assumes "sqlite_integer t"
  shows "\<forall>row \<in> set tbl. abs_defined r g b row \<Longrightarrow>
    select_rows r g b t tbl = Inr (filter (\<lambda>x. diff_of x \<le> t) (map (with_diff r g b) tbl))"
proof (induction tbl)
  case Nil
  show ?case by simp
next
  case (Cons row tbl)
  obtain r' g' b' name where row: "row = (r', g', b', name)" by (cases row)
  let ?d = "\<bar>r' - r\<bar> + \<bar>g' - g\<bar> + \<bar>b' - b\<bar>"
  from Cons.prems have "abs_defined r g b (r', g', b', name)" by (simp add: row)
  then have d: "sql_diff r g b (r', g', b', name) = Inr (sql_integer ?d)"
    using sql_diff_exact [of r g b "(r', g', b', name)"] by simp
  from Cons.prems have rest: "select_rows r g b t tbl =
      Inr (filter (\<lambda>x. diff_of x \<le> t) (map (with_diff r g b) tbl))"
    by (intro Cons.IH) simp
  have t: "t < 2 ^ 63" using assms by (simp add: sqlite_integer_def)
  have nn: "0 \<le> ?d" by simp
  show ?case
  proof (cases "?d < 2 ^ 63")
    case True
    then have "sql_integer ?d = Integer ?d" using nn by (simp only: sql_integer_nonneg if_True)
    then show ?thesis using rest d by (simp add: row)
  next
    case False
    then have "sql_integer ?d = Huge" using nn by (simp only: sql_integer_nonneg if_False)
    moreover have "\<not> ?d \<le> t" using False t by linarith
    ultimately show ?thesis using rest d by (simp add: row)
  qed
qed

lemma exact_rows_set:
  "set (sort_key diff_of (filter (\<lambda>x. diff_of x \<le> t) (map (with_diff r g b) tbl))) =
     {(r', g', b', n, d). (r', g', b', n) \<in> set tbl \<and> d = \<bar>r' - r\<bar> + \<bar>g' - g\<bar> + \<bar>b' - b\<bar> \<and> d \<le> t}"
  by (auto simp: image_iff) force

lemma exact_rows_length:
  "length (sort_key diff_of (filter (\<lambda>x. diff_of x \<le> t) (map (with_diff r g b) tbl))) =
     length (filter (\<lambda>(r', g', b', n). \<bar>r' - r\<bar> + \<bar>g' - g\<bar> + \<bar>b' - b\<bar> \<le> t) tbl)"
  unfolding length_sort filter_map length_map
  by (rule arg_cong [where f = length], rule filter_cong) auto

lemma exact_rows_zero:
  "set (sort_key diff_of (filter (\<lambda>x. diff_of x \<le> 0) (map (with_diff r g b) tbl))) =
     {(r', g', b', n, d). (r', g', b', n) \<in> set tbl \<and> (r', g', b') = (r, g, b) \<and> d = 0}"
  unfolding exact_rows_set by auto

lemma select_similar_exact:
  assumes "sqlite_integer t" "\<forall>row \<in> set tbl. abs_defined r g b row"
  shows "select_similar r g b t tbl =
    Inr (sort_key diff_of (filter (\<lambda>x. diff_of x \<le> t) (map (with_diff r g b) tbl)))"
  by (simp add: select_similar_def select_rows_exact [OF assms])

lemma sqlite_integer_0: "sqlite_integer 0"
  by (simp add: sqlite_integer_def)

lemma abs_defined_nonneg:
  assumes "sqlite_integer r" "sqlite_integer g" "sqlite_integer b" "0 \<le> r'" "0 \<le> g'" "0 \<le> b'"
  shows "abs_defined r g b (r', g', b', name)"
  using assms by (simp add: sqlite_integer_def)

lemma filter_key_insert_or_replace:
  "filter (\<lambda>x. row_key x = (r, g, b)) (insert_or_replace (r, g, b, n) tbl) = [(r, g, b, n)]"
  by (induction tbl) (auto simp: insert_or_replace_def)

lemma select_name_insert_or_replace:
  "select_name (r, g, b) (insert_or_replace (r, g, b, n) tbl) = Some n"
  by (simp add: select_name_def filter_key_insert_or_replace)

lemma primary_key_insert_or_replace:
  "primary_key tbl \<Longrightarrow> primary_key (insert_or_replace row tbl)"
  by (auto simp: primary_key_def insert_or_replace_def distinct_map_filter)

lemma primary_key_import_items:
  "primary_key tbl \<Longrightarrow> import_items items tbl = Inr tbl' \<Longrightarrow> primary_key tbl'"
proof (induction items tbl rule: import_items.induct)
  case (1 tbl)
  then show ?case by simp
next
  case (2 rgb_str name rest tbl)
  from "2.prems"(2) obtain r g b where p: "parse_rgb_str rgb_str = Inr (r, g, b)"
    and q: "sqlite_integer r \<and> sqlite_integer g \<and> sqlite_integer b"
    and i: "import_items rest (insert_or_replace (r, g, b, name) tbl) = Inr tbl'"
    by (auto split: sum.splits if_splits)
  from "2.prems"(1) have "primary_key (insert_or_replace (r, g, b, name) tbl)"
    by (rule primary_key_insert_or_replace)
  with "2.IH" p q i show ?case by blast
qed

lemma select_name_primary_key:
  "primary_key tbl \<Longrightarrow> (r, g, b, n) \<in> set tbl \<Longrightarrow> select_name (r, g, b) tbl = Some n"
proof (induction tbl)
  case Nil
  then show ?case by simp
next
  case (Cons x tbl)
  then show ?case
    by (cases x) (force simp: select_name_def primary_key_def split: list.splits)
qed

lemma select_name_None:
  "(r, g, b) \<notin> row_key ` set tbl \<Longrightarrow> select_name (r, g, b) tbl = None"
  by (induction tbl) (auto simp: select_name_def split: list.splits)

subsection \<open>The cache between two calls\<close>

lemma colors_get_color_name_body: "colors (snd (get_color_name_body r g b d)) = colors d"
  by (simp add: get_color_name_body_def find_color_def split: option.splits)

lemma fst_get_color_name_body:
  "fst (get_color_name_body r g b d) =
     (if \<not> in_range (r, g, b) then ''Invalid RGB value''
      else (case select_name (r, g, b) (colors d) of
              None \<Rightarrow> ''Unknown''
            | Some name \<Rightarrow> if name \<noteq> [] then name else ''Unknown''))"
  by (simp add: get_color_name_body_def find_color_def in_range_def split: option.splits)

lemma fst_get_color_name_body_cong:
  "colors d' = colors d \<Longrightarrow> fst (get_color_name_body r g b d') = fst (get_color_name_body r g b d)"
  by (simp only: fst_get_color_name_body)

lemma cache_entry_ok_cong:
  "colors d' = colors d \<Longrightarrow> cache_entry_ok d' e = cache_entry_ok d e"
  by (cases e) (simp add: cache_entry_ok_def fst_get_color_name_body)

lemma get_color_name_hit:
  "map_of (cache s) (r, g, b) = Some v \<Longrightarrow>
   get_color_name r g b s = (v, s\<lparr>cache := ((r, g, b), v) # filter (\<lambda>e. fst e \<noteq> (r, g, b)) (cache s)\<rparr>)"
  by (simp add: get_color_name_def)

lemma get_color_name_miss:
  "map_of (cache s) (r, g, b) = None \<Longrightarrow>
   get_color_name r g b s =
     (fst (get_color_name_body r g b (db s)),
      \<lparr>db = snd (get_color_name_body r g b (db s)),
       cache = ((r, g, b), fst (get_color_name_body r g b (db s))) #
          (if length (cache s) \<ge> maxsize then butlast (cache s) else cache s)\<rparr>)"
  by (simp add: get_color_name_def split: prod.splits)

lemma colors_get_color_name: "colors (db (snd (get_color_name r g b s))) = colors (db s)"
  by (cases "map_of (cache s) (r, g, b)")
     (simp_all add: get_color_name_hit get_color_name_miss colors_get_color_name_body)

lemma cache_ok_hit:
  assumes "cache_ok s" "map_of (cache s) (r, g, b) = Some v"
  shows "v = fst (get_color_name_body r g b (db s))"
proof -
  from assms(2) have "((r, g, b), v) \<in> set (cache s)" by (rule map_of_SomeD)
  with assms(1) have "cache_entry_ok (db s) ((r, g, b), v)"
    by (simp add: cache_ok_def list_all_iff)
  then show ?thesis by (simp add: cache_entry_ok_def)
qed

lemma fst_get_color_name:
  assumes "cache_ok s"
  shows "fst (get_color_name r g b s) = fst (get_color_name_body r g b (db s))"
proof (cases "map_of (cache s) (r, g, b)")
  case None
  then show ?thesis by (simp add: get_color_name_miss)
next
  case (Some v)
  with cache_ok_hit [OF assms Some] show ?thesis by (simp add: get_color_name_hit)
qed

lemma cache_ok_get_color_name:
  assumes "cache_ok s"
  shows "cache_ok (snd (get_color_name r g b s))"
proof (cases "map_of (cache s) (r, g, b)")
  case (Some v)
  let ?c = "filter (\<lambda>e. fst e \<noteq> (r, g, b)) (cache s)"
  have v: "cache_entry_ok (db s) ((r, g, b), v)"
    using cache_ok_hit [OF assms Some] by (simp add: cache_entry_ok_def)
  have mem: "((r, g, b), v) \<in> set (cache s)" using Some by (rule map_of_SomeD)
  have "length ?c < length (cache s)"
    by (rule length_filter_less [OF mem]) simp
  then have len: "length (((r, g, b), v) # ?c) \<le> maxsize"
    using assms by (simp add: cache_ok_def)
  have dist: "distinct (map fst (((r, g, b), v) # ?c))"
    using assms by (auto simp: cache_ok_def distinct_map_filter)
  have ok: "list_all (cache_entry_ok (db s)) (((r, g, b), v) # ?c)"
    using assms v by (simp add: cache_ok_def list_all_iff)
  show ?thesis
    using len dist ok by (simp add: get_color_name_hit [OF Some] cache_ok_def)
next
  case None
  let ?v = "fst (get_color_name_body r g b (db s))"
  let ?d = "snd (get_color_name_body r g b (db s))"
  let ?c = "if length (cache s) \<ge> maxsize then butlast (cache s) else cache s"
  have d': "colors ?d = colors (db s)" by (rule colors_get_color_name_body)
  have v: "cache_entry_ok ?d ((r, g, b), ?v)"
    by (simp add: cache_entry_ok_def fst_get_color_name_body_cong [OF d'])
  have notin: "(r, g, b) \<notin> fst ` set (cache s)"
    using None by (simp add: map_of_eq_None_iff)
  have sub: "set ?c \<subseteq> set (cache s)"
    by (auto dest: in_set_butlastD)
  have dist: "distinct (map fst ?c)"
    using assms by (auto simp: cache_ok_def map_butlast distinct_butlast simp del: butlast.simps)
  have len: "length (((r, g, b), ?v) # ?c) \<le> maxsize"
    using assms by (auto simp: cache_ok_def maxsize_def)
  have "list_all (cache_entry_ok (db s)) ?c"
    using assms sub by (auto simp: cache_ok_def list_all_iff)
  moreover have eq: "cache_entry_ok ?d = cache_entry_ok (db s)"
    by (rule ext, rule cache_entry_ok_cong, rule d')
  ultimately have ok: "list_all (cache_entry_ok ?d) (((r, g, b), ?v) # ?c)"
    using v by (simp del: butlast.simps)
  have dist': "distinct (map fst (((r, g, b), ?v) # ?c))"
    using dist notin sub by (auto simp del: butlast.simps)
  show ?thesis
    unfolding get_color_name_miss [OF None] snd_conv cache_ok_def
    using len dist' ok by (simp del: butlast.simps)
qed

lemma cache_ok_get_color_names: "cache_ok s \<Longrightarrow> cache_ok (get_color_names ks s)"
  by (induction ks s rule: get_color_names.induct) (simp_all add: cache_ok_get_color_name)

lemma colors_get_color_names: "colors (db (get_color_names ks s)) = colors (db s)"
  by (induction ks s rule: get_color_names.induct) (simp_all add: colors_get_color_name)

lemma add_color_done:
  assumes "sqlite_integer r" "sqlite_integer g" "sqlite_integer b"
  shows "add_color r g b name s =
    (Inr (), \<lparr>db = (db s)\<lparr>colors := insert_or_replace (r, g, b, name) (colors (db s)),
                            connects := connects (db s) + 1\<rparr>,
              cache = []\<rparr>)"
  using assms by (simp add: add_color_def db_add_color_def)

lemma add_color_raised:
  assumes "\<not> (sqlite_integer r \<and> sqlite_integer g \<and> sqlite_integer b)"
  shows "add_color r g b name s =
    (Inl OverflowError, s\<lparr>db := (db s)\<lparr>connects := connects (db s) + 1\<rparr>\<rparr>)"
  using assms by (simp add: add_color_def db_add_color_def)

lemma cache_ok_add_color:
  assumes "cache_ok s"
  shows "cache_ok (snd (add_color r g b name s))"
proof (cases "sqlite_integer r \<and> sqlite_integer g \<and> sqlite_integer b")
  case True
  then show ?thesis by (simp add: add_color_done cache_ok_def)
next
  case False
  have "cache_entry_ok ((db s)\<lparr>connects := connects (db s) + 1\<rparr>) = cache_entry_ok (db s)"
    by (rule ext, rule cache_entry_ok_cong) simp
  then show ?thesis using assms by (simp add: add_color_raised [OF False] cache_ok_def)
qed

lemma in_range_sqlite_integer:
  assumes "in_range (r, g, b)"
  shows "sqlite_integer r" "sqlite_integer g" "sqlite_integer b"
  using assms by (simp_all add: in_range_def sqlite_integer_def)

lemma cache_import_from_json:
  "cache (snd (import_from_json items s)) = (if isl (fst (import_from_json items s)) then cache s else [])"
  by (simp add: import_from_json_def bulk_import_from_json_def split: sum.splits)

lemma colors_import_from_json_failed:
  "isl (fst (import_from_json items s)) \<Longrightarrow> colors (db (snd (import_from_json items s))) = colors (db s)"
  by (simp add: import_from_json_def bulk_import_from_json_def split: sum.splits)

lemma cache_ok_import_from_json:
  assumes "cache_ok s"
  shows "cache_ok (snd (import_from_json items s))"
proof (cases "isl (fst (import_from_json items s))")
  case True
  have "cache_entry_ok (db (snd (import_from_json items s))) = cache_entry_ok (db s)"
    by (rule ext, rule cache_entry_ok_cong, rule colors_import_from_json_failed [OF True])
  with assms True show ?thesis by (simp add: cache_ok_def cache_import_from_json)
next
  case False
  then show ?thesis by (simp add: cache_ok_def cache_import_from_json)
qed

lemma cache_ok_find_similar_color:
  assumes "cache_ok s"
  shows "cache_ok (snd (find_similar_color r g b t s))"
proof -
  have "cache_entry_ok (db (snd (find_similar_color r g b t s))) = cache_entry_ok (db s)"
    by (rule ext, rule cache_entry_ok_cong) (simp add: find_similar_color_def)
  moreover have "cache (snd (find_similar_color r g b t s)) = cache s"
    by (simp add: find_similar_color_def)
  ultimately show ?thesis using assms by (simp add: cache_ok_def)
qed

lemma reachable_cache_ok: "reachable s \<Longrightarrow> cache_ok s"
proof (induction rule: reachable.induct)
  case reachable_init
  show ?case by (simp add: cache_ok_def init_lookup_def)
qed (simp_all add: cache_ok_add_color cache_ok_import_from_json cache_ok_get_color_name
        cache_ok_find_similar_color)

lemma reachable_primary_key: "reachable s \<Longrightarrow> primary_key (colors (db s))"
proof (induction rule: reachable.induct)
  case reachable_init
  show ?case by (simp add: init_lookup_def initialize_db_def primary_key_def)
next
  case (reachable_add s r g b name)
  then show ?case
    by (cases "sqlite_integer r \<and> sqlite_integer g \<and> sqlite_integer b")
       (simp_all add: add_color_done add_color_raised primary_key_insert_or_replace)
next
  case (reachable_import s items)
  then show ?case
    by (auto simp: import_from_json_def bulk_import_from_json_def split: sum.splits
        dest: primary_key_import_items)
next
  case (reachable_get s r g b)
  then show ?case by (simp add: colors_get_color_name)
next
  case (reachable_similar s r g b threshold)
  then show ?case by (simp add: find_similar_color_def)
qed

subsection \<open>Claims about the store\<close>

text \<open>
  C5. For every query centre \<open>(r, g, b)\<close> and every threshold \<open>t\<close> that the query takes
  as parameters, 64-bit integers, and every table on which \<^verbatim>\<open>ABS\<close> is defined for that
  centre (as it is when no stored component is negative), \<^verbatim>\<open>find_similar_color\<close>
  returns, and returns exactly the stored records whose Manhattan distance to the centre
  is at most \<open>t\<close>, each with that distance (the same records, and as many of them), in
  an order where the distance never decreases; with threshold 0 it returns only the
  records at \<open>(r, g, b)\<close> itself.
\<close>

theorem find_similar_color_scan:
  assumes "sqlite_integer r" "sqlite_integer g" "sqlite_integer b" "sqlite_integer t"
    and "\<forall>row \<in> set (colors (db s)). abs_defined r g b row"
  shows "\<exists>rows rows0.
      fst (find_similar_color r g b t s) = Inr rows
    \<and> set rows =
        {(r', g', b', n, d). (r', g', b', n) \<in> set (colors (db s)) \<and>
           d = \<bar>r' - r\<bar> + \<bar>g' - g\<bar> + \<bar>b' - b\<bar> \<and> d \<le> t}
    \<and> length rows =
        length (filter (\<lambda>(r', g', b', n). \<bar>r' - r\<bar> + \<bar>g' - g\<bar> + \<bar>b' - b\<bar> \<le> t) (colors (db s)))
    \<and> sorted (map diff_of rows)
    \<and> fst (find_similar_color r g b 0 s) = Inr rows0
    \<and> set rows0 =
        {(r', g', b', n, d). (r', g', b', n) \<in> set (colors (db s)) \<and> (r', g', b') = (r, g, b) \<and> d = 0}"
proof -
  let ?rows = "\<lambda>t. sort_key diff_of (filter (\<lambda>x. diff_of x \<le> t) (map (with_diff r g b) (colors (db s))))"
  have t: "fst (find_similar_color r g b t s) = Inr (?rows t)"
    using assms by (simp add: find_similar_color_def select_similar_exact)
  have z: "fst (find_similar_color r g b 0 s) = Inr (?rows 0)"
    using assms(1-3,5) by (simp add: find_similar_color_def select_similar_exact sqlite_integer_0)
  show ?thesis
    by (intro exI [of _ "?rows t"] exI [of _ "?rows 0"] conjI t z exact_rows_set exact_rows_length
        exact_rows_zero sorted_sort_key)
qed

lemma singleton_list: "length xs = 1 \<Longrightarrow> x \<in> set xs \<Longrightarrow> xs = [x]"
  by (cases xs) auto

theorem find_similar_color_scan_witness:
  "sqlite_integer 250 \<and> sqlite_integer 0 \<and> sqlite_integer 10
   \<and> abs_defined 250 0 0 (255, 0, 0, ''Bright Red'')
   \<and> abs_defined 250 0 0 (0, 255, 0, ''Pure Green'')
   \<and> abs_defined 250 0 0 (0, 0, 255, ''Deep Blue'')
   \<and> fst (find_similar_color 250 0 0 10
        \<lparr>db = \<lparr>colors = [(255, 0, 0, ''Bright Red''), (0, 255, 0, ''Pure Green''),
                           (0, 0, 255, ''Deep Blue'')], connects = 3\<rparr>,
         cache = []\<rparr>) = Inr [(255, 0, 0, ''Bright Red'', 5)]"
proof -
  let ?tbl = "[(255, 0, 0, ''Bright Red''), (0, 255, 0, ''Pure Green''), (0, 0, 255, ''Deep Blue'')]
    :: color_row list"
  let ?s = "\<lparr>db = \<lparr>colors = ?tbl, connects = 3\<rparr>, cache = []\<rparr>"
  have i: "sqlite_integer 250" "sqlite_integer 0" "sqlite_integer 10"
    by (simp_all add: sqlite_integer_def)
  have a: "abs_defined 250 0 0 (255, 0, 0, ''Bright Red'')"
    "abs_defined 250 0 0 (0, 255, 0, ''Pure Green'')"
    "abs_defined 250 0 0 (0, 0, 255, ''Deep Blue'')" by simp_all
  then have all: "\<forall>row \<in> set (colors (db ?s)). abs_defined 250 0 0 row" by simp
  from find_similar_color_scan [OF i(1) i(2) i(2) i(3) all]
  obtain rows where r: "fst (find_similar_color 250 0 0 10 ?s) = Inr rows"
    and m: "set rows =
        {(r', g', b', n, d). (r', g', b', n) \<in> set (colors (db ?s)) \<and>
           d = \<bar>r' - 250\<bar> + \<bar>g' - 0\<bar> + \<bar>b' - 0\<bar> \<and> d \<le> 10}"
    and l: "length rows =
        length (filter (\<lambda>(r', g', b', n). \<bar>r' - 250\<bar> + \<bar>g' - 0\<bar> + \<bar>b' - 0\<bar> \<le> 10) (colors (db ?s)))"
    by blast
  from l have "length rows = 1" by simp
  moreover from m have "(255, 0, 0, ''Bright Red'', 5) \<in> set rows" by simp
  ultimately have "rows = [(255, 0, 0, ''Bright Red'', 5)]" by (rule singleton_list)
  with r i a show ?thesis by (simp only: simp_thms)
qed

text \<open>
  C7. Calling \<^verbatim>\<open>add_color\<close> twice with the same key, and any two names, leaves exactly
  one record at that key, and it carries the name of the second call; and in no state the
  plugin reaches does the table hold two records with the same key. A key is three
  integers that the table can hold, each within 64 bits.
\<close>

theorem add_color_upsert:
  "(sqlite_integer r \<and> sqlite_integer g \<and> sqlite_integer b \<longrightarrow>
      fst (add_color r g b n1 s) = Inr ()
    \<and> fst (add_color r g b n2 (snd (add_color r g b n1 s))) = Inr ()
    \<and> filter (\<lambda>x. row_key x = (r, g, b))
        (colors (db (snd (add_color r g b n2 (snd (add_color r g b n1 s)))))) = [(r, g, b, n2)])
   \<and> (reachable s' \<longrightarrow> primary_key (colors (db s')))"
  by (simp add: add_color_done filter_key_insert_or_replace reachable_primary_key)

theorem add_color_upsert_witness:
  "sqlite_integer 1 \<and> sqlite_integer 2 \<and> sqlite_integer 3
   \<and> fst (add_color 1 2 3 ''a'' init_lookup) = Inr ()
   \<and> fst (add_color 1 2 3 ''b'' (snd (add_color 1 2 3 ''a'' init_lookup))) = Inr ()
   \<and> filter (\<lambda>x. row_key x = (1, 2, 3))
       (colors (db (snd (add_color 1 2 3 ''b'' (snd (add_color 1 2 3 ''a'' init_lookup))))))
       = [(1, 2, 3, ''b'')]
   \<and> reachable (snd (add_color 1 2 3 ''b'' (snd (add_color 1 2 3 ''a'' init_lookup))))
   \<and> primary_key
       (colors (db (snd (add_color 1 2 3 ''b'' (snd (add_color 1 2 3 ''a'' init_lookup))))))"
proof -
  let ?s = "snd (add_color 1 2 3 ''b'' (snd (add_color 1 2 3 ''a'' init_lookup)))"
  have i: "sqlite_integer 1" "sqlite_integer 2" "sqlite_integer 3"
    by (simp_all add: sqlite_integer_def)
  have r: "reachable ?s"
    by (intro reachable_add reachable_init)
  from add_color_upsert [of 1 2 3 "''a''" init_lookup "''b''" ?s] i r
  show ?thesis by simp
qed

text \<open>
  C8, as the code has it. \<^verbatim>\<open>ColorDatabase.find_color\<close> checks the range itself: for a
  key with a component outside 0..999 it returns \<^verbatim>\<open>None\<close> without opening a
  connection, whether or not a record with that key is stored. For a key in range it
  returns the name stored at exactly that key, and \<^verbatim>\<open>None\<close> when there is none.
\<close>

theorem find_color_range_checked:
  "(\<not> in_range (r, g, b) \<longrightarrow> find_color r g b d = (None, d))
   \<and> (in_range (r, g, b) \<and> primary_key (colors d) \<and> (r, g, b, n) \<in> set (colors d)
        \<longrightarrow> fst (find_color r g b d) = Some n)
   \<and> (in_range (r, g, b) \<and> (r, g, b) \<notin> row_key ` set (colors d)
        \<longrightarrow> fst (find_color r g b d) = None)"
  by (auto simp: find_color_def in_range_def select_name_primary_key select_name_None)

theorem find_color_range_checked_witness:
  "\<not> in_range (1000, 0, 0)
   \<and> find_color 1000 0 0 \<lparr>colors = [(1000, 0, 0, ''Big'')], connects = 0\<rparr>
       = (None, \<lparr>colors = [(1000, 0, 0, ''Big'')], connects = 0\<rparr>)
   \<and> in_range (999, 0, 0) \<and> primary_key [(999, 0, 0, ''Max'')]
   \<and> (999, 0, 0, ''Max'') \<in> set [(999, 0, 0, ''Max'')]
   \<and> fst (find_color 999 0 0 \<lparr>colors = [(999, 0, 0, ''Max'')], connects = 0\<rparr>) = Some ''Max''
   \<and> (0, 0, 0) \<notin> row_key ` set [(999, 0, 0, ''Max'')]
   \<and> fst (find_color 0 0 0 \<lparr>colors = [(999, 0, 0, ''Max'')], connects = 0\<rparr>) = None"
  using find_color_range_checked [of 1000 0 0 "\<lparr>colors = [(1000, 0, 0, ''Big'')], connects = 0\<rparr>" "''Big''"]
    find_color_range_checked [of 999 0 0 "\<lparr>colors = [(999, 0, 0, ''Max'')], connects = 0\<rparr>" "''Max''"]
    find_color_range_checked [of 0 0 0 "\<lparr>colors = [(999, 0, 0, ''Max'')], connects = 0\<rparr>" "''Max''"]
  by (simp add: in_range_def primary_key_def)

text \<open>
  C8 as stated fails: the record \<open>(1000, 0, 0)\<close>, written by \<^verbatim>\<open>add_color\<close>, is in
  the table, and \<^verbatim>\<open>find_color\<close> answers \<^verbatim>\<open>None\<close> for its key.
\<close>

theorem find_color_out_of_range_counterexample:
  "(1000, 0, 0, ''Big'') \<in> set (colors (snd (db_add_color 1000 0 0 ''Big'' initialize_db)))
   \<and> fst (find_color 1000 0 0 (snd (db_add_color 1000 0 0 ''Big'' initialize_db))) = None"
  by (simp add: find_color_def db_add_color_def insert_or_replace_def initialize_db_def
      sqlite_integer_def)

text \<open>
  C9, as the code has it. \<^verbatim>\<open>ColorLookup.add_color\<close> has no validation of its own. When
  \<open>r\<close>, \<open>g\<close>, \<open>b\<close> are integers that fit in 64 bits, negative ones too, the record is
  written to the store with any name, as the one record of its key, and the cache is
  emptied. When one of them does not fit, \<^verbatim>\<open>sqlite3\<close> raises \<^verbatim>\<open>OverflowError\<close>: the
  table and the cache are left as they are.
\<close>

theorem add_color_writes_through:
  "(sqlite_integer r \<and> sqlite_integer g \<and> sqlite_integer b \<longrightarrow>
      fst (add_color r g b name s) = Inr ()
    \<and> filter (\<lambda>x. row_key x = (r, g, b)) (colors (db (snd (add_color r g b name s))))
        = [(r, g, b, name)]
    \<and> (r, g, b, name) \<in> set (colors (db (snd (add_color r g b name s))))
    \<and> cache (snd (add_color r g b name s)) = [])
   \<and> (\<not> (sqlite_integer r \<and> sqlite_integer g \<and> sqlite_integer b) \<longrightarrow>
      fst (add_color r g b name s) = Inl OverflowError
    \<and> colors (db (snd (add_color r g b name s))) = colors (db s)
    \<and> cache (snd (add_color r g b name s)) = cache s)"
proof (intro conjI impI)
  assume a: "sqlite_integer r \<and> sqlite_integer g \<and> sqlite_integer b"
  then have d: "add_color r g b name s =
    (Inr (), \<lparr>db = (db s)\<lparr>colors := insert_or_replace (r, g, b, name) (colors (db s)),
                            connects := connects (db s) + 1\<rparr>,
              cache = []\<rparr>)"
    by (intro add_color_done) simp_all
  show "fst (add_color r g b name s) = Inr ()" by (simp add: d)
  show "filter (\<lambda>x. row_key x = (r, g, b)) (colors (db (snd (add_color r g b name s))))
        = [(r, g, b, name)]"
    by (simp add: d filter_key_insert_or_replace)
  show "(r, g, b, name) \<in> set (colors (db (snd (add_color r g b name s))))"
    by (simp add: d insert_or_replace_def)
  show "cache (snd (add_color r g b name s)) = []" by (simp add: d)
next
  assume a: "\<not> (sqlite_integer r \<and> sqlite_integer g \<and> sqlite_integer b)"
  note d = add_color_raised [OF a, of name s]
  show "fst (add_color r g b name s) = Inl OverflowError" by (simp add: d)
  show "colors (db (snd (add_color r g b name s))) = colors (db s)" by (simp add: d)
  show "cache (snd (add_color r g b name s)) = cache s" by (simp add: d)
qed

theorem add_color_writes_through_witness:
  "sqlite_integer (- 1) \<and> sqlite_integer 0
   \<and> fst (add_color (- 1) 0 0 ''x'' init_lookup) = Inr ()
   \<and> colors (db (snd (add_color (- 1) 0 0 ''x'' init_lookup))) = [(- 1, 0, 0, ''x'')]
   \<and> cache (snd (add_color (- 1) 0 0 ''x'' init_lookup)) = []
   \<and> \<not> sqlite_integer (2 ^ 63)
   \<and> fst (add_color (2 ^ 63) 0 0 ''x'' init_lookup) = Inl OverflowError
   \<and> colors (db (snd (add_color (2 ^ 63) 0 0 ''x'' init_lookup))) = []
   \<and> cache (snd (add_color (2 ^ 63) 0 0 ''x'' init_lookup)) = []"
proof -
  have i: "sqlite_integer (- 1)" "sqlite_integer 0" "\<not> sqlite_integer (2 ^ 63)"
    by (simp_all add: sqlite_integer_def)
  have e: "colors (db init_lookup) = []" "cache init_lookup = []"
    by (simp_all add: init_lookup_def initialize_db_def)
  have c: "colors (db (snd (add_color (- 1) 0 0 ''x'' init_lookup))) = [(- 1, 0, 0, ''x'')]"
    by (simp add: add_color_done i e insert_or_replace_def)
  from add_color_writes_through [of "- 1" 0 0 "''x''" init_lookup]
    add_color_writes_through [of "2 ^ 63" 0 0 "''x''" init_lookup] i c e
  show ?thesis by simp
qed

text \<open>
  C9 as stated fails: the component \<open>-1\<close> is not rejected, the call returns and the record
  is in the table after it.
\<close>

theorem add_color_negative_counterexample:
  "fst (add_color (- 1) 0 0 ''x'' init_lookup) = Inr ()
   \<and> colors (db (snd (add_color (- 1) 0 0 ''x'' init_lookup))) = [(- 1, 0, 0, ''x'')]"
  by (simp add: add_color_def db_add_color_def insert_or_replace_def init_lookup_def
      initialize_db_def sqlite_integer_def)

subsection \<open>Least recently used\<close>

lemma cached_behind_mem: "cached_behind k B c \<Longrightarrow> \<exists>v. map_of c k = Some v"
proof -
  assume "cached_behind k B c"
  then have "k \<in> fst ` set c" by (force simp: cached_behind_def)
  then have "map_of c k \<noteq> None" by (simp add: map_of_eq_None_iff)
  then show ?thesis by blast
qed

lemma cached_behind_front: "cached_behind k B ((k, v) # c)"
  unfolding cached_behind_def by (intro exI [of _ "[]"] exI) simp

lemma cached_behind_after_get:
  "cached_behind (r, g, b) B (cache (snd (get_color_name r g b s)))"
  by (cases "map_of (cache s) (r, g, b)")
     (simp_all add: get_color_name_hit get_color_name_miss cached_behind_front del: butlast.simps)

lemma cached_behind_step:
  assumes ok: "cache_ok s" and cb: "cached_behind k B (cache s)"
    and fin: "finite B" and card: "card B < maxsize" and kB: "(r, g, b) \<in> B"
  shows "cached_behind k B (cache (snd (get_color_name r g b s)))"
proof (cases "(r, g, b) = k")
  case True
  then show ?thesis using cached_behind_after_get [of r g b B s] by simp
next
  case neq: False
  from cb obtain pre v0 post where c: "cache s = pre @ (k, v0) # post" and pre: "fst ` set pre \<subseteq> B"
    unfolding cached_behind_def by blast
  show ?thesis
  proof (cases "map_of (cache s) (r, g, b)")
    case (Some v)
    let ?P = "\<lambda>e. fst e \<noteq> (r, g, b)"
    have "((r, g, b), v) # filter ?P (cache s) = (((r, g, b), v) # filter ?P pre) @ (k, v0) # filter ?P post"
      using neq by (auto simp: c)
    moreover have "fst ` set (((r, g, b), v) # filter ?P pre) \<subseteq> B"
      using pre kB by auto
    ultimately have "cached_behind k B (((r, g, b), v) # filter ?P (cache s))"
      unfolding cached_behind_def by blast
    then show ?thesis by (simp add: get_color_name_hit [OF Some])
  next
    case None
    let ?v = "fst (get_color_name_body r g b (db s))"
    let ?c = "if length (cache s) \<ge> maxsize then butlast (cache s) else cache s"
    have notin: "(r, g, b) \<notin> fst ` set (cache s)"
      using None by (simp add: map_of_eq_None_iff)
    then have "fst ` set pre \<subseteq> B - {(r, g, b)}"
      using pre by (auto simp: c)
    then have "card (fst ` set pre) \<le> card (B - {(r, g, b)})"
      using fin by (intro card_mono) auto
    moreover have "card (B - {(r, g, b)}) = card B - 1"
      using fin kB by simp
    moreover have "distinct (map fst pre)"
      using ok by (simp add: cache_ok_def c)
    then have "card (fst ` set pre) = length pre"
      using distinct_card [of "map fst pre"] by simp
    ultimately have lpre: "length pre + 2 \<le> maxsize"
      using card kB fin by (cases "card B") auto
    have "\<exists>post'. ?c = pre @ (k, v0) # post'"
    proof (cases "length (cache s) \<ge> maxsize")
      case True
      then have "post \<noteq> []" using lpre by (auto simp: c)
      then have "butlast (cache s) = pre @ (k, v0) # butlast post"
        by (simp add: c butlast_append)
      with True show ?thesis by simp
    next
      case False
      then show ?thesis by (simp add: c)
    qed
    then obtain post' where "?c = pre @ (k, v0) # post'" ..
    then have "((r, g, b), ?v) # ?c = (((r, g, b), ?v) # pre) @ (k, v0) # post'"
      by simp
    moreover have "fst ` set (((r, g, b), ?v) # pre) \<subseteq> B"
      using pre kB by auto
    ultimately have "cached_behind k B (((r, g, b), ?v) # ?c)"
      unfolding cached_behind_def by blast
    then show ?thesis by (simp add: get_color_name_miss [OF None] del: butlast.simps)
  qed
qed

lemma cached_behind_get_color_names:
  "cache_ok s \<Longrightarrow> cached_behind k B (cache s) \<Longrightarrow> finite B \<Longrightarrow> card B < maxsize \<Longrightarrow>
   set ks \<subseteq> B \<Longrightarrow> cached_behind k B (cache (get_color_names ks s))"
proof (induction ks s rule: get_color_names.induct)
  case (1 s)
  then show ?case by simp
next
  case (2 r g b ks s)
  have "cache_ok (snd (get_color_name r g b s))"
    using "2.prems"(1) by (rule cache_ok_get_color_name)
  moreover have "cached_behind k B (cache (snd (get_color_name r g b s)))"
    using "2.prems" by (intro cached_behind_step) auto
  ultimately show ?case using "2.IH" "2.prems" by simp
qed

lemma get_color_name_cached:
  assumes "cache_ok s" "cached_behind (r, g, b) B (cache s)"
  shows "fst (get_color_name r g b s) = fst (get_color_name_body r g b (db s))"
    and "db (snd (get_color_name r g b s)) = db s"
proof -
  from cached_behind_mem [OF assms(2)] obtain v where v: "map_of (cache s) (r, g, b) = Some v" ..
  show "fst (get_color_name r g b s) = fst (get_color_name_body r g b (db s))"
    using assms(1) by (rule fst_get_color_name)
  show "db (snd (get_color_name r g b s)) = db s"
    by (simp add: get_color_name_hit [OF v])
qed

subsection \<open>Claims about the resolver\<close>

text \<open>
  C1. For every \<open>(r, g, b)\<close> with each component in 0..999 and every non-empty name:
  \<^verbatim>\<open>add_color(r, g, b, name)\<close> returns, from whatever state (and whatever the cache held
  for the key), and after it \<^verbatim>\<open>get_color_name(r, g, b)\<close> returns exactly \<open>name\<close>, at
  the first call and at every later one, whatever keys \<open>ks\<close> are resolved in between.
\<close>

theorem resolve_after_add_color:
  assumes "in_range (r, g, b)" and "name \<noteq> []"
  shows "fst (add_color r g b name s) = Inr ()
    \<and> fst (get_color_name r g b (get_color_names ks (snd (add_color r g b name s)))) = name"
proof -
  let ?s1 = "snd (add_color r g b name s)"
  let ?s2 = "get_color_names ks ?s1"
  note added = add_color_done [OF in_range_sqlite_integer [OF assms(1)], of name s]
  have "cache_ok ?s1" by (simp add: added cache_ok_def)
  then have ok: "cache_ok ?s2" by (rule cache_ok_get_color_names)
  have "colors (db ?s2) = insert_or_replace (r, g, b, name) (colors (db s))"
    by (simp add: colors_get_color_names added)
  then have "select_name (r, g, b) (colors (db ?s2)) = Some name"
    by (simp add: select_name_insert_or_replace)
  then have "fst (get_color_name_body r g b (db ?s2)) = name"
    using assms by (simp add: fst_get_color_name_body)
  then have "fst (get_color_name r g b ?s2) = name"
    by (simp only: fst_get_color_name [OF ok])
  moreover have "fst (add_color r g b name s) = Inr ()" by (simp add: added)
  ultimately show ?thesis by (rule conjI [rotated])
qed

theorem resolve_after_add_color_witness:
  "in_range (255, 0, 0) \<and> ''Bright Red'' \<noteq> []
   \<and> fst (add_color 255 0 0 ''Bright Red'' init_lookup) = Inr ()
   \<and> fst (get_color_name 255 0 0
        (get_color_names [(255, 0, 0), (1, 2, 3), (255, 0, 0)]
           (snd (add_color 255 0 0 ''Bright Red'' init_lookup)))) = ''Bright Red''"
proof -
  have h1: "in_range (255, 0, 0)" by (simp add: in_range_def)
  have h2: "''Bright Red'' \<noteq> []" by simp
  from resolve_after_add_color [OF h1 h2] h1 h2 show ?thesis by blast
qed

text \<open>
  C2. For a key in range that has no record in the store, \<^verbatim>\<open>get_color_name\<close>
  returns \<^verbatim>\<open>"Unknown"\<close>; and when fewer than 2048 distinct keys \<open>ks\<close> are resolved
  after that call, with no write in between, a repeated call returns \<^verbatim>\<open>"Unknown"\<close>
  again and leaves the database as it is: it opens no connection.
\<close>

theorem negative_caching:
  assumes ok: "cache_ok s" and rng: "in_range (r, g, b)"
    and absent: "(r, g, b) \<notin> row_key ` set (colors (db s))"
    and few: "card (set ks) < maxsize"
  shows "fst (get_color_name r g b s) = ''Unknown''
     \<and> fst (get_color_name r g b (get_color_names ks (snd (get_color_name r g b s)))) = ''Unknown''
     \<and> db (snd (get_color_name r g b (get_color_names ks (snd (get_color_name r g b s)))))
         = db (get_color_names ks (snd (get_color_name r g b s)))"
proof -
  let ?s1 = "snd (get_color_name r g b s)"
  let ?s2 = "get_color_names ks ?s1"
  have unknown: "fst (get_color_name_body r g b d) = ''Unknown''" if "colors d = colors (db s)" for d
    using that rng absent by (simp add: fst_get_color_name_body select_name_None)
  have first: "fst (get_color_name r g b s) = ''Unknown''"
    using unknown by (simp add: fst_get_color_name [OF ok])
  have ok1: "cache_ok ?s1" using ok by (rule cache_ok_get_color_name)
  have ok2: "cache_ok ?s2" using ok1 by (rule cache_ok_get_color_names)
  have "cached_behind (r, g, b) (set ks) (cache ?s1)"
    by (rule cached_behind_after_get)
  then have cb: "cached_behind (r, g, b) (set ks) (cache ?s2)"
    using ok1 few by (intro cached_behind_get_color_names) auto
  have "colors (db ?s2) = colors (db s)"
    by (simp add: colors_get_color_names colors_get_color_name)
  then have "fst (get_color_name r g b ?s2) = ''Unknown''"
    using unknown by (simp add: get_color_name_cached(1) [OF ok2 cb])
  moreover have "db (snd (get_color_name r g b ?s2)) = db ?s2"
    by (rule get_color_name_cached(2) [OF ok2 cb])
  ultimately show ?thesis using first by blast
qed

theorem negative_caching_witness:
  "cache_ok init_lookup \<and> in_range (100, 100, 100)
   \<and> (100, 100, 100) \<notin> row_key ` set (colors (db init_lookup))
   \<and> card (set [(1, 2, 3), (100, 100, 100), (4, 5, 6)] :: rgb set) < maxsize
   \<and> fst (get_color_name 100 100 100 init_lookup) = ''Unknown''
   \<and> fst (get_color_name 100 100 100
        (get_color_names [(1, 2, 3), (100, 100, 100), (4, 5, 6)]
           (snd (get_color_name 100 100 100 init_lookup)))) = ''Unknown''
   \<and> db (snd (get_color_name 100 100 100
        (get_color_names [(1, 2, 3), (100, 100, 100), (4, 5, 6)]
           (snd (get_color_name 100 100 100 init_lookup)))))
       = db (get_color_names [(1, 2, 3), (100, 100, 100), (4, 5, 6)]
           (snd (get_color_name 100 100 100 init_lookup)))"
proof -
  have h1: "cache_ok init_lookup" by (simp add: cache_ok_def init_lookup_def)
  have h2: "in_range (100, 100, 100)" by (simp add: in_range_def)
  have h3: "(100, 100, 100) \<notin> row_key ` set (colors (db init_lookup))"
    by (simp add: init_lookup_def initialize_db_def)
  have h4: "card (set [(1, 2, 3), (100, 100, 100), (4, 5, 6)] :: rgb set) < maxsize"
    by (simp add: maxsize_def)
  from negative_caching [OF h1 h2 h3 h4] h1 h2 h3 h4 show ?thesis by blast
qed


text \<open>
  C3, as the code has it. For \<open>(r, g, b)\<close> with a component outside 0..999,
  \<^verbatim>\<open>get_color_name\<close> returns \<^verbatim>\<open>"Invalid RGB value"\<close> and leaves the database as it
  is, with no connection opened; the decorator memoises this result like any other, so the
  cache does change: the entry of the key becomes the most recent one, and on a miss with
  a full cache the least recent entry is dropped. \<open>(0, 0, 0)\<close> and \<open>(999, 999, 999)\<close> are
  looked up in the store.
\<close>

theorem invalid_range_memoised:
  assumes ok: "cache_ok s"
  shows "(\<not> in_range (r, g, b) \<longrightarrow>
            fst (get_color_name r g b s) = ''Invalid RGB value''
          \<and> db (snd (get_color_name r g b s)) = db s
          \<and> cache (snd (get_color_name r g b s)) =
              ((r, g, b), ''Invalid RGB value'') #
                (if (r, g, b) \<in> fst ` set (cache s) then filter (\<lambda>e. fst e \<noteq> (r, g, b)) (cache s)
                 else if length (cache s) \<ge> maxsize then butlast (cache s)
                 else cache s))
     \<and> fst (get_color_name 0 0 0 s) =
           (case select_name (0, 0, 0) (colors (db s)) of
              None \<Rightarrow> ''Unknown''
            | Some name \<Rightarrow> if name \<noteq> [] then name else ''Unknown'')
     \<and> fst (get_color_name 999 999 999 s) =
           (case select_name (999, 999, 999) (colors (db s)) of
              None \<Rightarrow> ''Unknown''
            | Some name \<Rightarrow> if name \<noteq> [] then name else ''Unknown'')"
proof (intro conjI impI)
  assume bad: "\<not> in_range (r, g, b)"
  have body: "get_color_name_body r g b (db s) = (''Invalid RGB value'', db s)"
    using bad by (simp add: get_color_name_body_def in_range_def)
  show "fst (get_color_name r g b s) = ''Invalid RGB value''"
    by (simp add: fst_get_color_name [OF ok] body)
  show "db (snd (get_color_name r g b s)) = db s"
    by (cases "map_of (cache s) (r, g, b)")
       (simp_all add: get_color_name_hit get_color_name_miss body)
  show "cache (snd (get_color_name r g b s)) =
      ((r, g, b), ''Invalid RGB value'') #
        (if (r, g, b) \<in> fst ` set (cache s) then filter (\<lambda>e. fst e \<noteq> (r, g, b)) (cache s)
         else if length (cache s) \<ge> maxsize then butlast (cache s)
         else cache s)"
  proof (cases "map_of (cache s) (r, g, b)")
    case None
    then have "(r, g, b) \<notin> fst ` set (cache s)" by (simp add: map_of_eq_None_iff)
    then show ?thesis by (simp add: get_color_name_miss [OF None] body del: butlast.simps)
  next
    case (Some v)
    then have "(r, g, b) \<in> fst ` set (cache s)" by (force dest: map_of_SomeD)
    moreover have "v = ''Invalid RGB value''"
      using cache_ok_hit [OF ok Some] body by simp
    ultimately show ?thesis by (simp add: get_color_name_hit [OF Some])
  qed
next
  show "fst (get_color_name 0 0 0 s) =
      (case select_name (0, 0, 0) (colors (db s)) of
         None \<Rightarrow> ''Unknown''
       | Some name \<Rightarrow> if name \<noteq> [] then name else ''Unknown'')"
    by (simp add: fst_get_color_name [OF ok] fst_get_color_name_body in_range_def)
  show "fst (get_color_name 999 999 999 s) =
      (case select_name (999, 999, 999) (colors (db s)) of
         None \<Rightarrow> ''Unknown''
       | Some name \<Rightarrow> if name \<noteq> [] then name else ''Unknown'')"
    by (simp add: fst_get_color_name [OF ok] fst_get_color_name_body in_range_def)
qed

theorem invalid_range_memoised_witness:
  "cache_ok init_lookup \<and> \<not> in_range (- 1, 0, 0)
   \<and> fst (get_color_name (- 1) 0 0 init_lookup) = ''Invalid RGB value''
   \<and> db (snd (get_color_name (- 1) 0 0 init_lookup)) = db init_lookup
   \<and> cache (snd (get_color_name (- 1) 0 0 init_lookup)) = [((- 1, 0, 0), ''Invalid RGB value'')]
   \<and> fst (get_color_name 0 0 0 init_lookup) = ''Unknown''
   \<and> fst (get_color_name 999 999 999 init_lookup) = ''Unknown''"
proof -
  have h1: "cache_ok init_lookup" by (simp add: cache_ok_def init_lookup_def)
  have h2: "\<not> in_range (- 1, 0, 0)" by (simp add: in_range_def)
  have c: "cache init_lookup = []" "colors (db init_lookup) = []"
    by (simp_all add: init_lookup_def initialize_db_def)
  from invalid_range_memoised [OF h1, of "- 1" 0 0] h1 h2 show ?thesis
    by (simp add: c select_name_def maxsize_def)
qed

text \<open>
  C3 as stated fails: the call with \<open>(1000, 0, 0)\<close> changes the state, it adds an entry
  to the empty cache.
\<close>

theorem invalid_range_changes_cache_counterexample:
  "\<not> in_range (1000, 0, 0)
   \<and> cache init_lookup = []
   \<and> cache (snd (get_color_name 1000 0 0 init_lookup)) = [((1000, 0, 0), ''Invalid RGB value'')]
   \<and> snd (get_color_name 1000 0 0 init_lookup) \<noteq> init_lookup"
proof -
  have c: "cache init_lookup = []" by (simp add: init_lookup_def)
  then have m: "map_of (cache init_lookup) (1000, 0, 0) = None" by simp
  have body: "get_color_name_body 1000 0 0 (db init_lookup) = (''Invalid RGB value'', db init_lookup)"
    by (simp add: get_color_name_body_def)
  have c': "cache (snd (get_color_name 1000 0 0 init_lookup)) = [((1000, 0, 0), ''Invalid RGB value'')]"
    by (simp add: get_color_name_miss [OF m] body c maxsize_def)
  then have "cache (snd (get_color_name 1000 0 0 init_lookup)) \<noteq> cache init_lookup"
    by (simp add: c)
  then have "snd (get_color_name 1000 0 0 init_lookup) \<noteq> init_lookup" by metis
  with c c' show ?thesis by (simp add: in_range_def)
qed

subsection \<open>Python's \<^verbatim>\<open>int\<close> on short strings\<close>

lemma digit_not_space: "digit_value c < 37 \<Longrightarrow> \<not> py_isspace c"
  by (auto simp: digit_value_def py_isspace_def Let_def split: if_splits)

lemma digit_value_special:
  "digit_value CHR ''-'' = 37" "digit_value CHR ''+'' = 37" "digit_value CHR ''_'' = 37"
  "digit_value CHR ''#'' = 37" "digit_value CHR ''x'' = 33" "digit_value CHR ''X'' = 33"
  by (simp_all add: digit_value_def)

lemma digit_not_special:
  assumes "digit_value c < 33"
  shows "c \<noteq> CHR ''-''" "c \<noteq> CHR ''+''" "c \<noteq> CHR ''_''" "c \<noteq> CHR ''#''"
    "c \<noteq> CHR ''x''" "c \<noteq> CHR ''X''"
  using assms digit_value_special by auto


lemma py_int_digit:
  assumes "digit_value c < base" "base \<le> 16"
  shows "py_int base [c] = Some (int (digit_value c))"
proof -
  have c: "digit_value c < 33" "digit_value c < 37" using assms by simp_all
  have strip: "py_strip [c] = [c]"
    using digit_not_space [OF c(2)] by (simp add: py_strip_def)
  show ?thesis
    unfolding py_int_def strip
    using digit_not_special [OF c(1)] assms(1) by (simp add: Let_def)
qed

lemma py_int_16_pair:
  assumes "is_hex_digit a" "is_hex_digit b"
  shows "py_int 16 [a, b] = Some (int (16 * digit_value a + digit_value b))"
proof -
  have a: "digit_value a < 33" "digit_value a < 37" "digit_value a < 16"
    and b: "digit_value b < 33" "digit_value b < 37" "digit_value b < 16"
    using assms by (simp_all add: is_hex_digit_def)
  have strip: "py_strip [a, b] = [a, b]"
    using digit_not_space [OF a(2)] digit_not_space [OF b(2)] by (simp add: py_strip_def)
  show ?thesis
    unfolding py_int_def strip
    using digit_not_special [OF a(1)] digit_not_special [OF b(1)] a(3) b(3)
    by (simp add: Let_def)
qed

subsection \<open>The bulk import\<close>

lemma unpack_default:
  "length ys \<noteq> 3 \<Longrightarrow>
   (case ys of [Some r, Some g, Some b] \<Rightarrow> Inr (r, g, b) | _ \<Rightarrow> Inl ValueError)
     = (Inl ValueError :: error + rgb)"
  by (auto split: list.splits option.splits)

lemma unpack_three:
  "(case [x, y, z] of [Some r, Some g, Some b] \<Rightarrow> Inr (r, g, b) | _ \<Rightarrow> Inl ValueError)
     = (if x = None \<or> y = None \<or> z = None then Inl ValueError
        else (Inr (the x, the y, the z) :: error + rgb))"
  by (cases x; cases y; cases z) simp_all

lemma parse_rgb_str_cases:
  "parse_rgb_str rgb_str =
     (if malformed_key rgb_str then Inl ValueError
      else Inr (the (py_int 10 (py_split CHR '','' rgb_str ! 0)),
                the (py_int 10 (py_split CHR '','' rgb_str ! 1)),
                the (py_int 10 (py_split CHR '','' rgb_str ! 2))))"
proof (cases "length (py_split CHR '','' rgb_str) = 3")
  case False
  then have "length (map (py_int 10) (py_split CHR '','' rgb_str)) \<noteq> 3" by simp
  then have "parse_rgb_str rgb_str = Inl ValueError"
    unfolding parse_rgb_str_def by (rule unpack_default)
  then show ?thesis using False by (simp add: malformed_key_def)
next
  case True
  from length3_shape [OF True] obtain a b c where p: "py_split CHR '','' rgb_str = [a, b, c]"
    by (elim exE)
  have m: "malformed_key rgb_str = (py_int 10 a = None \<or> py_int 10 b = None \<or> py_int 10 c = None)"
    unfolding malformed_key_def p Let_def by simp
  show ?thesis
    unfolding parse_rgb_str_def m unfolding p list.map unpack_three by simp
qed

lemma parse_rgb_str_malformed: "(parse_rgb_str rgb_str = Inl ValueError) = malformed_key rgb_str"
  by (simp add: parse_rgb_str_cases)

lemma parse_rgb_str_Inl: "parse_rgb_str rgb_str = Inl e \<Longrightarrow> malformed_key rgb_str"
  by (simp add: parse_rgb_str_cases split: if_splits)

lemma malformed_not_storable: "malformed_key rgb_str \<Longrightarrow> \<not> storable_key rgb_str"
  by (simp add: storable_key_def parse_rgb_str_cases)

lemma storable_keyD:
  assumes "storable_key rgb_str"
  obtains r g b where "parse_rgb_str rgb_str = Inr (r, g, b)"
    "sqlite_integer r \<and> sqlite_integer g \<and> sqlite_integer b"
  using assms by (auto simp: storable_key_def split: sum.splits)

lemma import_items_ok:
  "\<forall>item \<in> set items. storable_key (fst item) \<Longrightarrow>
   import_items items tbl = Inr (foldl upsert_item tbl items)"
proof (induction items arbitrary: tbl)
  case Nil
  then show ?case by simp
next
  case (Cons item rest)
  obtain rgb_str name where item: "item = (rgb_str, name)" by (cases item)
  from Cons.prems have "storable_key rgb_str" by (simp add: item)
  then obtain r g b where p: "parse_rgb_str rgb_str = Inr (r, g, b)"
    and q: "sqlite_integer r \<and> sqlite_integer g \<and> sqlite_integer b"
    by (rule storable_keyD)
  have up: "upsert_item tbl (rgb_str, name) = insert_or_replace (r, g, b, name) tbl"
    by (simp add: upsert_item_def p)
  from Cons.prems have "\<forall>item \<in> set rest. storable_key (fst item)" by simp
  then have "import_items rest (insert_or_replace (r, g, b, name) tbl)
      = Inr (foldl upsert_item (insert_or_replace (r, g, b, name) tbl) rest)"
    by (rule Cons.IH)
  then show ?case by (simp add: item p q up)
qed

lemma import_items_fail:
  "\<exists>item \<in> set items. \<not> storable_key (fst item) \<Longrightarrow> isl (import_items items tbl)"
proof (induction items arbitrary: tbl)
  case Nil
  then show ?case by simp
next
  case (Cons item rest)
  obtain rgb_str name where item: "item = (rgb_str, name)" by (cases item)
  show ?case
  proof (cases "storable_key rgb_str")
    case False
    then show ?thesis
      by (auto simp: item storable_key_def split: sum.splits)
  next
    case True
    then obtain r g b where p: "parse_rgb_str rgb_str = Inr (r, g, b)"
      and q: "sqlite_integer r \<and> sqlite_integer g \<and> sqlite_integer b"
      by (rule storable_keyD)
    from Cons.prems True have "\<exists>item \<in> set rest. \<not> storable_key (fst item)"
      by (simp add: item)
    then have "isl (import_items rest (insert_or_replace (r, g, b, name) tbl))"
      by (rule Cons.IH)
    then show ?thesis by (simp add: item p q)
  qed
qed

lemma import_from_json_failed:
  assumes "isl (import_items items (colors (db s)))"
  shows "isl (fst (import_from_json items s))"
    and "snd (import_from_json items s) = s\<lparr>db := (db s)\<lparr>connects := connects (db s) + 1\<rparr>\<rparr>"
  using assms by (auto simp: import_from_json_def bulk_import_from_json_def split: sum.splits)

lemma import_from_json_done:
  assumes "import_items items (colors (db s)) = Inr tbl"
  shows "import_from_json items s =
    (Inr (), \<lparr>db = (db s)\<lparr>colors := tbl, connects := connects (db s) + 1\<rparr>, cache = []\<rparr>)"
  using assms by (simp add: import_from_json_def bulk_import_from_json_def)

lemma import_from_json_isl:
  "isl (fst (import_from_json items s)) = isl (import_items items (colors (db s)))"
  by (simp add: import_from_json_def bulk_import_from_json_def split: sum.splits)

text \<open>
  C4. If the key of any item of an import is malformed (a component that \<^verbatim>\<open>int\<close>
  rejects, or a number of components other than three), \<^verbatim>\<open>import_from_json\<close> fails
  with an error, the table is what it was before the call, and the cache is untouched;
  so it is after every failure of the import. The cache is emptied only by an import that
  returns: when every key parses to components that fit in 64 bits, every upsert of the
  batch, in order, has been applied to the table, and the cache is empty.
\<close>

theorem import_from_json_atomic:
  "((\<exists>item \<in> set items. malformed_key (fst item)) \<longrightarrow>
       isl (fst (import_from_json items s))
     \<and> colors (db (snd (import_from_json items s))) = colors (db s)
     \<and> cache (snd (import_from_json items s)) = cache s)
   \<and> (isl (fst (import_from_json items s)) \<longrightarrow>
       colors (db (snd (import_from_json items s))) = colors (db s)
     \<and> cache (snd (import_from_json items s)) = cache s)
   \<and> ((\<forall>item \<in> set items. storable_key (fst item)) \<longrightarrow>
       fst (import_from_json items s) = Inr ()
     \<and> colors (db (snd (import_from_json items s))) = foldl upsert_item (colors (db s)) items
     \<and> cache (snd (import_from_json items s)) = [])"
proof -
  have failed: "colors (db (snd (import_from_json items s))) = colors (db s)
      \<and> cache (snd (import_from_json items s)) = cache s"
    if "isl (fst (import_from_json items s))"
  proof -
    from that have "isl (import_items items (colors (db s)))"
      by (simp only: import_from_json_isl)
    then show ?thesis by (simp add: import_from_json_failed(2))
  qed
  have bad: "isl (fst (import_from_json items s))"
    if "\<exists>item \<in> set items. malformed_key (fst item)"
  proof -
    from that have "\<exists>item \<in> set items. \<not> storable_key (fst item)"
      using malformed_not_storable by blast
    then have "isl (import_items items (colors (db s)))" by (rule import_items_fail)
    then show ?thesis by (rule import_from_json_failed(1))
  qed
  have good: "fst (import_from_json items s) = Inr ()
      \<and> colors (db (snd (import_from_json items s))) = foldl upsert_item (colors (db s)) items
      \<and> cache (snd (import_from_json items s)) = []"
    if "\<forall>item \<in> set items. storable_key (fst item)"
    by (simp add: import_from_json_done [OF import_items_ok [OF that]])
  show ?thesis using failed bad good by blast
qed

lemma py_split_comma_examples:
  "py_split CHR '','' ''1,x,3'' = [''1'', ''x'', ''3'']"
  "py_split CHR '','' ''1,2,3'' = [''1'', ''2'', ''3'']"
  "py_split CHR '','' [CHR 0x1C, CHR ''1'', CHR '','', CHR ''2'', CHR '','', CHR ''3'']
     = [[CHR 0x1C, CHR ''1''], ''2'', ''3'']"
  by simp_all

lemma py_int_10_examples:
  "py_int 10 ''1'' = Some 1" "py_int 10 ''2'' = Some 2" "py_int 10 ''3'' = Some 3"
  "py_int 10 ''x'' = None" "py_int 10 [CHR 0x1C, CHR ''1''] = None"
proof -
  have d: "digit_value CHR ''1'' = 1" "digit_value CHR ''2'' = 2" "digit_value CHR ''3'' = 3"
    "digit_value (CHR 0x1C) = 37"
    by (simp_all add: digit_value_def)
  show "py_int 10 ''1'' = Some 1" using py_int_digit [of "CHR ''1''" 10] by (simp add: d)
  show "py_int 10 ''2'' = Some 2" using py_int_digit [of "CHR ''2''" 10] by (simp add: d)
  show "py_int 10 ''3'' = Some 3" using py_int_digit [of "CHR ''3''" 10] by (simp add: d)
  have "\<not> py_isspace CHR ''x''" by (simp add: py_isspace_def)
  then have "py_strip ''x'' = ''x''" by (simp add: py_strip_def)
  then show "py_int 10 ''x'' = None"
    unfolding py_int_def by (simp add: digit_value_special Let_def)
  have "\<not> py_isspace (CHR 0x1C)" "\<not> py_isspace CHR ''1''" by (simp_all add: py_isspace_def)
  then have "py_strip [CHR 0x1C, CHR ''1''] = [CHR 0x1C, CHR ''1'']" by (simp add: py_strip_def)
  then show "py_int 10 [CHR 0x1C, CHR ''1''] = None"
    unfolding py_int_def by (simp add: d Let_def)
qed

lemma malformed_key_examples:
  "malformed_key ''1,x,3''" "\<not> malformed_key ''1,2,3''"
  "malformed_key [CHR 0x1C, CHR ''1'', CHR '','', CHR ''2'', CHR '','', CHR ''3'']"
  unfolding malformed_key_def py_split_comma_examples Let_def
  by (simp_all add: py_int_10_examples)

lemma parse_rgb_str_example: "parse_rgb_str ''1,2,3'' = Inr (1, 2, 3)"
  unfolding parse_rgb_str_def py_split_comma_examples
  by (simp add: py_int_10_examples)

lemma storable_key_example: "storable_key ''1,2,3''"
  by (simp add: storable_key_def parse_rgb_str_example sqlite_integer_def)

theorem import_from_json_atomic_witness:
  "malformed_key ''1,x,3''
   \<and> isl (fst (import_from_json [(''1,2,3'', ''a''), (''1,x,3'', ''b'')]
         \<lparr>db = \<lparr>colors = [(9, 9, 9, ''z'')], connects = 1\<rparr>, cache = [((9, 9, 9), ''z'')]\<rparr>))
   \<and> colors (db (snd (import_from_json [(''1,2,3'', ''a''), (''1,x,3'', ''b'')]
         \<lparr>db = \<lparr>colors = [(9, 9, 9, ''z'')], connects = 1\<rparr>, cache = [((9, 9, 9), ''z'')]\<rparr>)))
       = [(9, 9, 9, ''z'')]
   \<and> cache (snd (import_from_json [(''1,2,3'', ''a''), (''1,x,3'', ''b'')]
         \<lparr>db = \<lparr>colors = [(9, 9, 9, ''z'')], connects = 1\<rparr>, cache = [((9, 9, 9), ''z'')]\<rparr>))
       = [((9, 9, 9), ''z'')]
   \<and> storable_key ''1,2,3''
   \<and> fst (import_from_json [(''1,2,3'', ''a'')]
         \<lparr>db = \<lparr>colors = [(9, 9, 9, ''z'')], connects = 1\<rparr>, cache = [((9, 9, 9), ''z'')]\<rparr>)
       = Inr ()
   \<and> colors (db (snd (import_from_json [(''1,2,3'', ''a'')]
         \<lparr>db = \<lparr>colors = [(9, 9, 9, ''z'')], connects = 1\<rparr>, cache = [((9, 9, 9), ''z'')]\<rparr>)))
       = [(9, 9, 9, ''z''), (1, 2, 3, ''a'')]
   \<and> cache (snd (import_from_json [(''1,2,3'', ''a'')]
         \<lparr>db = \<lparr>colors = [(9, 9, 9, ''z'')], connects = 1\<rparr>, cache = [((9, 9, 9), ''z'')]\<rparr>))
       = []"
  using import_from_json_atomic [of "[(''1,2,3'', ''a''), (''1,x,3'', ''b'')]"
      "\<lparr>db = \<lparr>colors = [(9, 9, 9, ''z'')], connects = 1\<rparr>, cache = [((9, 9, 9), ''z'')]\<rparr>"]
    import_from_json_atomic [of "[(''1,2,3'', ''a'')]"
      "\<lparr>db = \<lparr>colors = [(9, 9, 9, ''z'')], connects = 1\<rparr>, cache = [((9, 9, 9), ''z'')]\<rparr>"]
  by (simp add: malformed_key_examples storable_key_example parse_rgb_str_example upsert_item_def
      insert_or_replace_def)

subsection \<open>Hex conversion\<close>

lemma hex_to_rgb_hash: "hex_to_rgb (CHR ''#'' # s) = hex_to_rgb s"
  by (simp add: hex_to_rgb_def)

lemma hex_digit_not_hash: "is_hex_digit a \<Longrightarrow> a \<noteq> CHR ''#''"
  using digit_not_special(4) [of a] by (simp add: is_hex_digit_def)


lemma hex_to_rgb_six:
  assumes "is_hex_digit a" "is_hex_digit b" "is_hex_digit c"
    "is_hex_digit d" "is_hex_digit e" "is_hex_digit f"
  shows "hex_to_rgb (a # b # c # d # e # f # rest) =
    Inr (int (16 * digit_value a + digit_value b), int (16 * digit_value c + digit_value d),
         int (16 * digit_value e + digit_value f))"
  using hex_digit_not_hash [OF assms(1)]
  by (simp add: hex_to_rgb_def py_int_16_pair assms)










lemma py_strip_single: "\<not> py_isspace c \<Longrightarrow> py_strip [c] = [c]"
  by (simp add: py_strip_def)









lemma digit_value_examples:
  "digit_value CHR ''0'' = 0" "digit_value CHR ''1'' = 1" "digit_value CHR ''2'' = 2"
  "digit_value CHR ''3'' = 3" "digit_value CHR ''4'' = 4" "digit_value CHR ''5'' = 5"
  "digit_value CHR ''6'' = 6" "digit_value CHR ''a'' = 10" "digit_value CHR ''f'' = 15"
  "digit_value CHR ''F'' = 15" "digit_value CHR ''z'' = 35"
  by (simp_all add: digit_value_def)

lemma is_hex_digit_examples:
  "is_hex_digit CHR ''0''" "is_hex_digit CHR ''1''" "is_hex_digit CHR ''2''"
  "is_hex_digit CHR ''3''" "is_hex_digit CHR ''4''" "is_hex_digit CHR ''5''"
  "is_hex_digit CHR ''6''" "is_hex_digit CHR ''a''" "is_hex_digit CHR ''f''"
  "is_hex_digit CHR ''F''" "\<not> is_hex_digit CHR ''z''"
  by (simp_all add: is_hex_digit_def digit_value_examples)






subsection \<open>The round trip of the hex conversions\<close>

lemma hex_char_0: "hex_char 0 = CHR ''0''"
proof -
  have "(of_char (char_of (48 :: nat)) :: nat) = of_char CHR ''0''" by simp
  then have "char_of (48 :: nat) = CHR ''0''" by (simp only: of_char_eq_iff)
  then show ?thesis by (simp add: hex_char_def)
qed

lemma digit_value_hex_char: "d < 16 \<Longrightarrow> digit_value (hex_char d) = d"
  by (simp add: hex_char_def digit_value_def)

lemma is_hex_digit_hex_char: "d < 16 \<Longrightarrow> is_hex_digit (hex_char d)"
  by (simp add: is_hex_digit_def digit_value_hex_char)

lemma lower_hex_digit:
  assumes "is_lower_hex_digit c"
  shows "hex_char (digit_value c) = c" and "is_hex_digit c"
proof -
  let ?n = "of_char c :: nat"
  from assms have r: "(48 \<le> ?n \<and> ?n \<le> 57) \<or> (97 \<le> ?n \<and> ?n \<le> 102)"
    by (simp add: is_lower_hex_digit_def Let_def)
  then show "is_hex_digit c"
    by (auto simp: is_hex_digit_def digit_value_def Let_def)
  from r show "hex_char (digit_value c) = c"
  proof
    assume a: "48 \<le> ?n \<and> ?n \<le> 57"
    then have "digit_value c = ?n - 48" by (simp add: digit_value_def Let_def)
    moreover have "?n - 48 < 10" "48 + (?n - 48) = ?n" using a by arith+
    ultimately show ?thesis by (simp add: hex_char_def)
  next
    assume a: "97 \<le> ?n \<and> ?n \<le> 102"
    then have "digit_value c = ?n - 87" by (simp add: digit_value_def Let_def)
    moreover have "\<not> ?n - 87 < 10" "87 + (?n - 87) = ?n" using a by arith+
    ultimately show ?thesis by (simp add: hex_char_def)
  qed
qed

lemma format_02x_pair:
  assumes "a < 16" "b < 16"
  shows "format_02x (int (16 * a + b)) = [hex_char a, hex_char b]"
proof (cases "a = 0")
  case True
  then have "hex_of_nat (16 * a + b) = [hex_char b]"
    using assms(2) by (simp add: hex_of_nat.simps)
  then show ?thesis using True
    by (simp add: format_02x_def hex_char_0 Let_def del: of_nat_add of_nat_mult)
next
  case False
  have d: "(16 * a + b) div 16 = a" "(16 * a + b) mod 16 = b" using assms(2) by simp_all
  have "\<not> 16 * a + b < 16" using False by simp
  then have "hex_of_nat (16 * a + b) = hex_of_nat a @ [hex_char b]"
    using hex_of_nat.simps [of "16 * a + b"] by (simp only: d if_False)
  moreover have "hex_of_nat a = [hex_char a]"
    using assms(1) by (simp add: hex_of_nat.simps)
  ultimately show ?thesis
    by (simp add: format_02x_def Let_def del: of_nat_add of_nat_mult)
qed

lemma format_02x_byte:
  assumes "0 \<le> i" "i \<le> 255"
  shows "format_02x i = [hex_char (nat i div 16), hex_char (nat i mod 16)]"
proof -
  have "i = int (16 * (nat i div 16) + nat i mod 16)" using assms(1) by simp
  moreover have "nat i div 16 < 16" "nat i mod 16 < 16" using assms by simp_all
  ultimately show ?thesis using format_02x_pair [of "nat i div 16" "nat i mod 16"] by simp
qed

lemma length6_shape:
  "length (s :: 'a list) = 6 \<Longrightarrow> \<exists>a b c d e f. s = [a, b, c, d, e, f]"
  by (auto simp: length_Suc_conv eval_nat_numeral)

lemma rgb_to_hex_bytes:
  assumes "0 \<le> r" "r \<le> 255" "0 \<le> g" "g \<le> 255" "0 \<le> b" "b \<le> 255"
  shows "rgb_to_hex r g b =
    CHR ''#'' # [hex_char (nat r div 16), hex_char (nat r mod 16),
                 hex_char (nat g div 16), hex_char (nat g mod 16),
                 hex_char (nat b div 16), hex_char (nat b mod 16)]"
  by (simp add: rgb_to_hex_def format_02x_byte assms)

lemma byte_value:
  assumes "0 \<le> i" "i \<le> 255"
  shows "int (16 * digit_value (hex_char (nat i div 16)) + digit_value (hex_char (nat i mod 16))) = i"
proof -
  have "nat i div 16 < 16" "nat i mod 16 < 16" using assms by simp_all
  then have "16 * digit_value (hex_char (nat i div 16)) + digit_value (hex_char (nat i mod 16))
      = 16 * (nat i div 16) + nat i mod 16"
    by (simp only: digit_value_hex_char)
  also have "\<dots> = nat i" by simp
  finally show ?thesis using assms(1) by simp
qed

lemma hex_to_rgb_rgb_to_hex:
  assumes "0 \<le> r" "r \<le> 255" "0 \<le> g" "g \<le> 255" "0 \<le> b" "b \<le> 255"
  shows "hex_to_rgb (rgb_to_hex r g b) = Inr (r, g, b)"
proof -
  have lt: "nat r div 16 < 16" "nat r mod 16 < 16" "nat g div 16 < 16" "nat g mod 16 < 16"
    "nat b div 16 < 16" "nat b mod 16 < 16" using assms by simp_all
  note six = hex_to_rgb_six [OF lt [THEN is_hex_digit_hex_char], of "[]"]
  show ?thesis
    unfolding rgb_to_hex_bytes [OF assms] hex_to_rgb_hash six
    by (simp only: byte_value assms)
qed

lemma rgb_to_hex_hex_to_rgb:
  assumes "is_lower_hex_digit a" "is_lower_hex_digit b" "is_lower_hex_digit c"
    "is_lower_hex_digit d" "is_lower_hex_digit e" "is_lower_hex_digit f"
  shows "hex_to_rgb (CHR ''#'' # [a, b, c, d, e, f]) =
      Inr (int (16 * digit_value a + digit_value b), int (16 * digit_value c + digit_value d),
           int (16 * digit_value e + digit_value f))"
    and "rgb_to_hex (int (16 * digit_value a + digit_value b))
          (int (16 * digit_value c + digit_value d)) (int (16 * digit_value e + digit_value f))
      = CHR ''#'' # [a, b, c, d, e, f]"
proof -
  note h = assms [THEN lower_hex_digit(2)]
  show "hex_to_rgb (CHR ''#'' # [a, b, c, d, e, f]) =
      Inr (int (16 * digit_value a + digit_value b), int (16 * digit_value c + digit_value d),
           int (16 * digit_value e + digit_value f))"
    unfolding hex_to_rgb_hash by (rule hex_to_rgb_six [OF h])
  have lt: "digit_value a < 16" "digit_value b < 16" "digit_value c < 16" "digit_value d < 16"
    "digit_value e < 16" "digit_value f < 16"
    using h by (simp_all only: is_hex_digit_def)
  have "format_02x (int (16 * digit_value a + digit_value b)) = [a, b]"
    "format_02x (int (16 * digit_value c + digit_value d)) = [c, d]"
    "format_02x (int (16 * digit_value e + digit_value f)) = [e, f]"
    by (simp_all only: format_02x_pair lt lower_hex_digit(1) assms)
  then show "rgb_to_hex (int (16 * digit_value a + digit_value b))
          (int (16 * digit_value c + digit_value d)) (int (16 * digit_value e + digit_value f))
      = CHR ''#'' # [a, b, c, d, e, f]"
    unfolding rgb_to_hex_def by simp
qed

text \<open>
  C10. For all \<open>r\<close>, \<open>g\<close>, \<open>b\<close> in 0..255, \<^verbatim>\<open>hex_to_rgb(rgb_to_hex(r, g, b))\<close> is
  \<open>(r, g, b)\<close>; and for every string \<open>s\<close> of exactly six lowercase hex digits,
  \<^verbatim>\<open>hex_to_rgb("#" + s)\<close> returns components that \<^verbatim>\<open>rgb_to_hex\<close> formats back to
  \<^verbatim>\<open>"#" + s\<close>.
\<close>

theorem hex_round_trip:
  "(0 \<le> r \<and> r \<le> 255 \<and> 0 \<le> g \<and> g \<le> 255 \<and> 0 \<le> b \<and> b \<le> 255 \<longrightarrow>
      hex_to_rgb (rgb_to_hex r g b) = Inr (r, g, b))
   \<and> (length s = 6 \<and> list_all is_lower_hex_digit s \<longrightarrow>
      (\<exists>r' g' b'. hex_to_rgb (CHR ''#'' # s) = Inr (r', g', b')
         \<and> rgb_to_hex r' g' b' = CHR ''#'' # s))"
proof (intro conjI impI)
  assume "0 \<le> r \<and> r \<le> 255 \<and> 0 \<le> g \<and> g \<le> 255 \<and> 0 \<le> b \<and> b \<le> 255"
  then have "0 \<le> r" "r \<le> 255" "0 \<le> g" "g \<le> 255" "0 \<le> b" "b \<le> 255" by blast+
  then show "hex_to_rgb (rgb_to_hex r g b) = Inr (r, g, b)" by (rule hex_to_rgb_rgb_to_hex)
next
  assume a: "length s = 6 \<and> list_all is_lower_hex_digit s"
  then obtain a b c d e f where s: "s = [a, b, c, d, e, f]"
    using length6_shape [of s] by blast
  from a have l: "is_lower_hex_digit a" "is_lower_hex_digit b" "is_lower_hex_digit c"
    "is_lower_hex_digit d" "is_lower_hex_digit e" "is_lower_hex_digit f"
    unfolding s by simp_all
  show "\<exists>r' g' b'. hex_to_rgb (CHR ''#'' # s) = Inr (r', g', b')
         \<and> rgb_to_hex r' g' b' = CHR ''#'' # s"
    unfolding s using rgb_to_hex_hex_to_rgb [OF l] by blast
qed

lemma is_lower_hex_digit_examples:
  "is_lower_hex_digit CHR ''f''" "is_lower_hex_digit CHR ''0''" "is_lower_hex_digit CHR ''a''"
  by (simp_all add: is_lower_hex_digit_def)

theorem hex_round_trip_witness:
  "(0 :: int) \<le> 255 \<and> (255 :: int) \<le> 255 \<and> (0 :: int) \<le> 0 \<and> (0 :: int) \<le> 255
   \<and> (0 :: int) \<le> 170 \<and> (170 :: int) \<le> 255
   \<and> hex_to_rgb (rgb_to_hex 255 0 170) = Inr (255, 0, 170)
   \<and> length ''ff00aa'' = 6
   \<and> is_lower_hex_digit CHR ''f'' \<and> is_lower_hex_digit CHR ''0'' \<and> is_lower_hex_digit CHR ''a''
   \<and> hex_to_rgb ''#ff00aa'' = Inr (255, 0, 170)
   \<and> rgb_to_hex 255 0 170 = ''#ff00aa''"
proof -
  have rt1: "hex_to_rgb (rgb_to_hex 255 0 170) = Inr (255, 0, 170)"
    using hex_round_trip [of 255 0 170] by simp
  have l: "length ''ff00aa'' = 6 \<and> list_all is_lower_hex_digit ''ff00aa''"
    by (simp add: is_lower_hex_digit_examples)
  with hex_round_trip [where s = "''ff00aa''"]
  obtain r' g' b' where dec: "hex_to_rgb ''#ff00aa'' = Inr (r', g', b')"
    and enc: "rgb_to_hex r' g' b' = ''#ff00aa''" by blast
  have "hex_to_rgb ''ff00aa'' = Inr (255, 0, 170)"
    using hex_to_rgb_six [of "CHR ''f''" "CHR ''f''" "CHR ''0''" "CHR ''0''" "CHR ''a''" "CHR ''a''" "[]"]
    by (simp add: is_hex_digit_examples digit_value_examples)
  then have v: "hex_to_rgb ''#ff00aa'' = Inr (255, 0, 170)"
    by (simp only: hex_to_rgb_hash)
  with dec have "r' = 255" "g' = 0" "b' = 170" by simp_all
  with enc have rt2: "rgb_to_hex 255 0 170 = ''#ff00aa''" by simp
  show ?thesis using rt1 v rt2 by (simp add: is_lower_hex_digit_examples)
qed

end
